(* ===== verification/Prelude.thy ===== *)
theory Prelude
  imports Main "HOL-Library.Sublist"
begin

text \<open>
  Shared vocabulary of the development: the JavaScript string primitives that
  \<open>src/script.js\<close> calls (\<open>String.prototype.trim\<close>, \<open>toLowerCase\<close>,
  \<open>includes\<close>, \<open>Array.prototype.join\<close>, the character class \<open>\d\<close> of its
  regular expressions), modelled on HOL strings.

  A JavaScript string is a sequence of UTF-16 code units. The model represents it
  as a HOL \<open>string\<close> whose characters are the code units 0 to 255 (the Latin-1
  block, which holds every letter of the Portuguese survey the program reads);
  code units above 255 are not represented. Within that range \<open>trim\<close> and
  \<open>toLowerCase\<close> are modelled exactly: the white space of ECMA-262 that lies in
  Latin-1 is TAB, LF, VT, FF, CR, SPACE and NO-BREAK SPACE (0xA0), and the
  upper-case letters are A to Z and 0xC0 to 0xDE without 0xD7 (the
  multiplication sign).
\<close>

named_theorems js_simps \<open>evaluation rules of the JavaScript string primitives\<close>

type_synonym jsstr = string

text \<open>The one exception the modelled code raises by itself: a \<open>TypeError\<close> from a
  property read or a method call on \<open>undefined\<close>.\<close>

datatype js_error = TypeError

abbreviation LF :: char where "LF \<equiv> CHR 0x0A"
abbreviation CR :: char where "CR \<equiv> CHR 0x0D"
abbreviation QUOTE :: char where "QUOTE \<equiv> CHR 0x22"
abbreviation COMMA :: char where "COMMA \<equiv> CHR 0x2C"
abbreviation PIPE :: char where "PIPE \<equiv> CHR 0x7C"

subsection \<open>Character classes\<close>

definition js_ws :: "char \<Rightarrow> bool" where
  "js_ws c \<longleftrightarrow> of_char c \<in> {9, 10, 11, 12, 13, 32, 160 :: nat}"

definition is_digit :: "char \<Rightarrow> bool" where
  "is_digit c \<longleftrightarrow> 48 \<le> (of_char c :: nat) \<and> (of_char c :: nat) \<le> 57"

definition digit_val :: "char \<Rightarrow> nat" where
  "digit_val c = of_char c - 48"

subsection \<open>\<open>String.prototype.trim\<close>\<close>

definition js_trim_start :: "jsstr \<Rightarrow> jsstr" where
  "js_trim_start s = dropWhile js_ws s"

definition js_trim_end :: "jsstr \<Rightarrow> jsstr" where
  "js_trim_end s = rev (dropWhile js_ws (rev s))"

definition js_trim :: "jsstr \<Rightarrow> jsstr" where
  "js_trim s = js_trim_end (js_trim_start s)"

text \<open>A string is already trimmed when neither end is white space.\<close>

definition trimmed :: "jsstr \<Rightarrow> bool" where
  "trimmed s \<longleftrightarrow> (s = [] \<or> (\<not> js_ws (hd s) \<and> \<not> js_ws (last s)))"

subsection \<open>\<open>String.prototype.toLowerCase\<close>\<close>

definition js_lower_char :: "char \<Rightarrow> char" where
  "js_lower_char c =
     (let n = (of_char c :: nat)
      in if (65 \<le> n \<and> n \<le> 90) \<or> (192 \<le> n \<and> n \<le> 222 \<and> n \<noteq> 215)
         then char_of (n + 32) else c)"

definition js_lower :: "jsstr \<Rightarrow> jsstr" where
  "js_lower s = map js_lower_char s"

subsection \<open>\<open>String.prototype.includes\<close>\<close>

text \<open>
  \<open>s.includes(t)\<close> scans the start positions of \<open>s\<close> from left to right and
  succeeds at the first one where \<open>t\<close> occurs; the empty needle occurs everywhere.
\<close>

fun js_includes :: "jsstr \<Rightarrow> jsstr \<Rightarrow> bool" where
  "js_includes [] t = (t = [])"
| "js_includes (c # s) t = (take (length t) (c # s) = t \<or> js_includes s t)"

subsection \<open>\<open>Array.prototype.join\<close>\<close>

fun js_join :: "jsstr \<Rightarrow> jsstr list \<Rightarrow> jsstr" where
  "js_join sep [] = []"
| "js_join sep [x] = x"
| "js_join sep (x # y # xs) = x @ sep @ js_join sep (y # xs)"

subsection \<open>Generic lemmas\<close>

lemma js_ws_simps [js_simps]:
  "\<not> js_ws QUOTE" "\<not> js_ws COMMA" "js_ws LF" "js_ws CR"
  by (simp_all add: js_ws_def)

lemma not_digit_simps [js_simps]:
  "\<not> is_digit QUOTE" "\<not> is_digit COMMA" "\<not> is_digit PIPE" "\<not> is_digit LF" "\<not> is_digit CR"
  by (simp_all add: is_digit_def)

lemma dropWhile_hd_not:
  "dropWhile P xs \<noteq> [] \<Longrightarrow> \<not> P (hd (dropWhile P xs))"
  by (induction xs) auto

lemma dropWhile_id: "xs = [] \<or> \<not> P (hd xs) \<Longrightarrow> dropWhile P xs = xs"
  by (cases xs) auto

lemma all_set_dropWhile: "(\<forall>x\<in>set (dropWhile P xs). P x) \<longleftrightarrow> (\<forall>x\<in>set xs. P x)"
  by (induction xs) auto

lemma rev_dropWhile_rev_prefix:
  "xs = rev (dropWhile P (rev xs)) @ rev (takeWhile P (rev xs))"
  by (simp flip: rev_append)

lemma js_trim_Nil_iff: "js_trim s = [] \<longleftrightarrow> (\<forall>c\<in>set s. js_ws c)"
  by (simp add: js_trim_def js_trim_start_def js_trim_end_def all_set_dropWhile)

lemma js_trim_trimmed [simp]: "trimmed (js_trim s)"
proof (cases "js_trim s = []")
  case True
  then show ?thesis by (simp add: trimmed_def)
next
  case False
  let ?t = "dropWhile js_ws s"
  let ?u = "rev (dropWhile js_ws (rev ?t))"
  have u: "js_trim s = ?u" by (simp add: js_trim_def js_trim_start_def js_trim_end_def)
  have u_ne: "?u \<noteq> []" using False unfolding u .
  then have t_ne: "?t \<noteq> []" by (metis dropWhile.simps(1) rev.simps(1))
  have ht: "\<not> js_ws (hd ?t)" using t_ne by (rule dropWhile_hd_not)
  have d_ne: "dropWhile js_ws (rev ?t) \<noteq> []" using u_ne by (metis rev.simps(1))
  have "\<not> js_ws (last ?u)"
    using dropWhile_hd_not[OF d_ne] by (simp add: last_rev)
  moreover have "hd ?u = hd ?t"
    using rev_dropWhile_rev_prefix[of ?t js_ws] u_ne by (metis hd_append2)
  ultimately show ?thesis using ht u u_ne by (simp add: trimmed_def)
qed

lemma trimmed_js_trim [simp]: "trimmed s \<Longrightarrow> js_trim s = s"
proof -
  assume tr: "trimmed s"
  then have "dropWhile js_ws s = s"
    by (intro dropWhile_id) (auto simp: trimmed_def)
  moreover have "dropWhile js_ws (rev s) = rev s"
    using tr by (intro dropWhile_id) (auto simp: trimmed_def hd_rev)
  ultimately show ?thesis by (simp add: js_trim_def js_trim_start_def js_trim_end_def)
qed

lemma js_trim_idem [simp]: "js_trim (js_trim s) = js_trim s"
  by simp

lemma length_js_lower [simp]: "length (js_lower s) = length s"
  by (simp add: js_lower_def)

lemma js_ws_js_lower_char [simp]: "js_ws (js_lower_char c) \<longleftrightarrow> js_ws c"
proof -
  let ?n = "of_char c :: nat"
  show ?thesis
  proof (cases "(65 \<le> ?n \<and> ?n \<le> 90) \<or> (192 \<le> ?n \<and> ?n \<le> 222 \<and> ?n \<noteq> 215)")
    case True
    then have "of_char (char_of (?n + 32) :: char) = (?n + 32 :: nat)"
      by (auto simp: of_char_of)
    with True show ?thesis by (auto simp: js_lower_char_def js_ws_def)
  qed (auto simp: js_lower_char_def Let_def)
qed

lemma js_lower_char_idem [simp]: "js_lower_char (js_lower_char c) = js_lower_char c"
proof -
  let ?n = "of_char c :: nat"
  show ?thesis
  proof (cases "(65 \<le> ?n \<and> ?n \<le> 90) \<or> (192 \<le> ?n \<and> ?n \<le> 222 \<and> ?n \<noteq> 215)")
    case True
    then have "of_char (char_of (?n + 32) :: char) = (?n + 32 :: nat)"
      by (auto simp: of_char_of)
    with True show ?thesis by (auto simp: js_lower_char_def Let_def)
  qed (auto simp: js_lower_char_def Let_def)
qed

lemma js_lower_idem [simp]: "js_lower (js_lower s) = js_lower s"
  by (simp add: js_lower_def comp_def)

lemma js_lower_Nil_iff [simp]: "js_lower s = [] \<longleftrightarrow> s = []"
  by (simp add: js_lower_def)

lemma prefix_take_iff: "prefix t xs \<longleftrightarrow> take (length t) xs = t"
proof
  assume "prefix t xs"
  then obtain zs where "xs = t @ zs" by (auto simp: prefix_def)
  then show "take (length t) xs = t" by simp
next
  assume "take (length t) xs = t"
  then show "prefix t xs" by (metis take_is_prefix)
qed

lemma js_includes_sublist: "js_includes s t \<longleftrightarrow> sublist t s"
  by (induction s) (simp_all add: sublist_Cons_right prefix_take_iff)

lemma js_includes_Nil [simp]: "js_includes s []"
  by (cases s) simp_all

end
