(* ===== verification/JsObject.thy ===== *)
theory JsObject
  imports Prelude
begin

text \<open>
  The records of \<open>src/script.js\<close> are plain JavaScript objects built by
  \<open>obj[key] = value\<close> (\<open>parseCSV\<close>, the \<open>header.reduce\<close> callback) and read by
  \<open>row[key]\<close>, \<open>Object.keys(row)\<close> and \<open>Object.values(row)\<close>
  (\<open>exportToCSV\<close>). The model is the list of own properties in creation order:
  \<^item> assignment to an existing key overwrites the value in place; to a new key it
    appends; assignment of a string to \<open>__proto__\<close> goes to the inherited setter,
    which ignores primitives, so it creates no own property;
  \<^item> \<open>Object.keys\<close> lists the array-index keys (canonical decimal numerals below
    \<open>2^32 - 1\<close>) first, in ascending numeric order, then the other keys in creation
    order (ECMA-262 OrdinaryOwnPropertyKeys);
  \<^item> every value is a string (the parser stores nothing else), and
    \<open>row[k] || ''\<close> is the value, or the empty string when \<open>k\<close> is absent.
  Reads of inherited properties are not modelled: the program reads only its own
  fixed column names and the keys \<open>Object.keys\<close> returns, none of which names a
  property of \<open>Object.prototype\<close>.
\<close>

type_synonym jsobj = "(jsstr \<times> jsstr) list"

definition obj_set :: "jsobj \<Rightarrow> jsstr \<Rightarrow> jsstr \<Rightarrow> jsobj" where
  "obj_set ob k v =
     (if k = ''__proto__'' then ob
      else if k \<in> set (map fst ob)
           then map (\<lambda>(k', v'). if k' = k then (k', v) else (k', v')) ob
           else ob @ [(k, v)])"

definition obj_get :: "jsobj \<Rightarrow> jsstr \<Rightarrow> jsstr option" where
  "obj_get ob k = map_of ob k"

definition obj_get_or_empty :: "jsobj \<Rightarrow> jsstr \<Rightarrow> jsstr" where
  "obj_get_or_empty ob k = (case obj_get ob k of None \<Rightarrow> [] | Some v \<Rightarrow> v)"

definition digits_nat :: "jsstr \<Rightarrow> nat" where
  "digits_nat s = foldl (\<lambda>n c. 10 * n + digit_val c) 0 s"

definition is_array_index :: "jsstr \<Rightarrow> bool" where
  "is_array_index k \<longleftrightarrow>
     k \<noteq> [] \<and> list_all is_digit k \<and> (k = ''0'' \<or> hd k \<noteq> CHR ''0'')
     \<and> digits_nat k < 2 ^ 32 - 1"

definition obj_keys :: "jsobj \<Rightarrow> jsstr list" where
  "obj_keys ob =
     sort_key digits_nat (filter is_array_index (map fst ob))
     @ filter (\<lambda>k. \<not> is_array_index k) (map fst ob)"

definition obj_values :: "jsobj \<Rightarrow> jsstr list" where
  "obj_values ob = map (obj_get_or_empty ob) (obj_keys ob)"

text \<open>Well-formed objects: distinct own keys, none of them \<open>__proto__\<close>.\<close>

definition obj_wf :: "jsobj \<Rightarrow> bool" where
  "obj_wf ob \<longleftrightarrow> distinct (map fst ob) \<and> ''__proto__'' \<notin> set (map fst ob)"

subsection \<open>Assignment and lookup\<close>

lemma map_fst_obj_set [simp]:
  "map fst (obj_set ob k v) =
     (if k = ''__proto__'' \<or> k \<in> set (map fst ob) then map fst ob else map fst ob @ [k])"
proof -
  have "map fst (map (\<lambda>(k', v'). if k' = k then (k', v) else (k', v')) ob) = map fst ob"
    by (induction ob) auto
  then show ?thesis by (simp add: obj_set_def)
qed

lemma fst_set_obj_set [simp]:
  "fst ` set (obj_set ob k v) = (if k = ''__proto__'' then fst ` set ob else insert k (fst ` set ob))"
proof -
  have "fst ` set (obj_set ob k v) = set (map fst (obj_set ob k v))"
    by (simp only: list.set_map)
  also have "\<dots> = (if k = ''__proto__'' then fst ` set ob else insert k (fst ` set ob))"
    by auto
  finally show ?thesis .
qed

lemma obj_set_wf [simp]: "obj_wf ob \<Longrightarrow> obj_wf (obj_set ob k v)"
  by (auto simp: obj_wf_def)

lemma map_of_update_in_place:
  "map_of (map (\<lambda>(k', v'). if k' = k then (k', v) else (k', v')) ob) = (map_of ob)(k := (if k \<in> set (map fst ob) then Some v else None))"
  by (induction ob) (auto simp: fun_eq_iff)

lemma obj_get_obj_set [simp]:
  "obj_get (obj_set ob k v) k' =
     (if k' = k \<and> k \<noteq> ''__proto__'' then Some v else obj_get ob k')"
proof (cases "k = ''__proto__''")
  case np: False
  show ?thesis
  proof (cases "k \<in> set (map fst ob)")
    case True
    with np show ?thesis by (auto simp: obj_get_def obj_set_def map_of_update_in_place)
  next
    case False
    then have "map_of ob k = None" by (simp add: map_of_eq_None_iff)
    with np False show ?thesis
      by (auto simp: obj_get_def obj_set_def map_add_def split: option.split)
  qed
qed (simp add: obj_set_def)

lemma obj_get_or_empty_absent: "k \<notin> set (map fst r) \<Longrightarrow> obj_get_or_empty r k = []"
proof -
  assume "k \<notin> set (map fst r)"
  then have "map_of r k = None" by (simp add: map_of_eq_None_iff)
  then show ?thesis by (simp add: obj_get_or_empty_def obj_get_def)
qed

subsection \<open>Key order\<close>

lemma set_obj_keys [simp]: "set (obj_keys ob) = set (map fst ob)"
  by (auto simp: obj_keys_def)

lemma distinct_obj_keys: "distinct (map fst ob) \<Longrightarrow> distinct (obj_keys ob)"
  by (auto simp: obj_keys_def)

lemma obj_keys_no_index:
  "\<forall>k\<in>set (map fst ob). \<not> is_array_index k \<Longrightarrow> obj_keys ob = map fst ob"
proof -
  assume "\<forall>k\<in>set (map fst ob). \<not> is_array_index k"
  then have "filter is_array_index (map fst ob) = []"
    and "filter (\<lambda>k. \<not> is_array_index k) (map fst ob) = map fst ob"
    by (simp_all add: filter_empty_conv)
  then show ?thesis by (simp add: obj_keys_def)
qed

end
