(* ===== verification/JsNumber.thy ===== *)
theory JsNumber
  imports Complex_Main JsObject
begin

text \<open>
  JavaScript numbers as \<open>sortTable\<close> (lines 283 to 299) uses them: a string is
  coerced by \<open>isNaN(va)\<close> and \<open>va - vb\<close> through StringToNumber
  (ECMA-262 7.1.4.1.1), and a comparator's result counts only by its sign, NaN
  counting as 0. The model keeps the exact rational value of a numeric literal;
  rounding to the nearest double and the overflow of very large literals to
  Infinity are not modelled (they change no comparison between the short decimal
  numerals of the survey). \<open>Infinity\<close>, signs, fractions, exponents and the
  \<open>0x\<close>, \<open>0o\<close>, \<open>0b\<close> literals of the grammar are.
\<close>

datatype jsnum = NaN | Fin rat | PosInf | NegInf

text \<open>Sign of \<open>x - y\<close>, with NaN (and \<open>Infinity - Infinity\<close>) counted as 0.\<close>

fun num_sub_sign :: "jsnum \<Rightarrow> jsnum \<Rightarrow> int" where
  "num_sub_sign NaN y = 0"
| "num_sub_sign x NaN = 0"
| "num_sub_sign PosInf PosInf = 0"
| "num_sub_sign NegInf NegInf = 0"
| "num_sub_sign PosInf y = 1"
| "num_sub_sign NegInf y = -1"
| "num_sub_sign x PosInf = -1"
| "num_sub_sign x NegInf = 1"
| "num_sub_sign (Fin a) (Fin b) = (if a < b then -1 else if a = b then 0 else 1)"

definition js_isNaN :: "jsnum \<Rightarrow> bool" where
  "js_isNaN x \<longleftrightarrow> x = NaN"

definition radix_digit :: "nat \<Rightarrow> char \<Rightarrow> nat option" where
  "radix_digit b c =
     (let n = (of_char c :: nat);
          v = (if 48 \<le> n \<and> n \<le> 57 then n - 48
               else if 97 \<le> n \<and> n \<le> 102 then n - 87
               else if 65 \<le> n \<and> n \<le> 70 then n - 55 else 16)
      in if v < b then Some v else None)"

fun radix_value :: "nat \<Rightarrow> nat \<Rightarrow> jsstr \<Rightarrow> nat option" where
  "radix_value b acc [] = Some acc"
| "radix_value b acc (c # cs) =
     (case radix_digit b c of None \<Rightarrow> None | Some v \<Rightarrow> radix_value b (b * acc + v) cs)"

definition parse_nondecimal :: "jsstr \<Rightarrow> jsnum option" where
  "parse_nondecimal t =
     (case t of
        c0 # c1 # ds \<Rightarrow>
          (if c0 = CHR ''0'' \<and> ds \<noteq> [] then
             (let b = (if c1 \<in> {CHR ''x'', CHR ''X''} then 16
                       else if c1 \<in> {CHR ''o'', CHR ''O''} then 8
                       else if c1 \<in> {CHR ''b'', CHR ''B''} then 2 else 0)
              in if b = 0 then None else map_option (\<lambda>n. Fin (of_nat n)) (radix_value b 0 ds))
           else None)
      | _ \<Rightarrow> None)"

definition parse_signed_int :: "jsstr \<Rightarrow> int option" where
  "parse_signed_int s =
     (let (neg, ds) = (case s of
                         c # r \<Rightarrow> if c = CHR ''+'' then (False, r)
                                  else if c = CHR ''-'' then (True, r) else (False, s)
                       | [] \<Rightarrow> (False, []))
      in if ds \<noteq> [] \<and> list_all is_digit ds
         then Some (if neg then - int (digits_nat ds) else int (digits_nat ds)) else None)"

definition parse_exponent :: "jsstr \<Rightarrow> int option" where
  "parse_exponent r =
     (if r = [] then Some 0
      else if hd r \<in> {CHR ''e'', CHR ''E''} then parse_signed_int (tl r) else None)"

definition scale10 :: "nat \<Rightarrow> int \<Rightarrow> rat" where
  "scale10 m e = (if 0 \<le> e then of_nat m * 10 ^ nat e else of_nat m / 10 ^ nat (- e))"

definition parse_unsigned_decimal :: "jsstr \<Rightarrow> rat option" where
  "parse_unsigned_decimal t =
     (let d1 = takeWhile is_digit t; r1 = dropWhile is_digit t;
          dot = (r1 \<noteq> [] \<and> hd r1 = CHR ''.'');
          d2 = (if dot then takeWhile is_digit (tl r1) else []);
          r2 = (if dot then dropWhile is_digit (tl r1) else r1)
      in if d1 = [] \<and> d2 = [] then None
         else map_option (\<lambda>e. scale10 (digits_nat (d1 @ d2)) (e - int (length d2)))
                (parse_exponent r2))"

definition parse_unsigned :: "jsstr \<Rightarrow> jsnum option" where
  "parse_unsigned r =
     (if r = ''Infinity'' then Some PosInf else map_option Fin (parse_unsigned_decimal r))"

fun negate :: "jsnum \<Rightarrow> jsnum" where
  "negate (Fin a) = Fin (- a)"
| "negate PosInf = NegInf"
| "negate NegInf = PosInf"
| "negate NaN = NaN"

definition parse_str_decimal :: "jsstr \<Rightarrow> jsnum option" where
  "parse_str_decimal t =
     (case t of
        [] \<Rightarrow> None
      | c # r \<Rightarrow> if c = CHR ''+'' then parse_unsigned r
                 else if c = CHR ''-'' then map_option negate (parse_unsigned r)
                 else parse_unsigned t)"

definition js_to_number :: "jsstr \<Rightarrow> jsnum" where
  "js_to_number s =
     (let t = js_trim s
      in if t = [] then Fin 0
         else case parse_nondecimal t of
                Some n \<Rightarrow> n
              | None \<Rightarrow> (case parse_str_decimal t of Some n \<Rightarrow> n | None \<Rightarrow> NaN))"

lemma num_sub_sign_antisym: "num_sub_sign x y = - num_sub_sign y x"
  by (cases x; cases y) auto

lemma num_sub_sign_trans:
  "x \<noteq> NaN \<Longrightarrow> y \<noteq> NaN \<Longrightarrow> z \<noteq> NaN \<Longrightarrow> num_sub_sign x y \<le> 0 \<Longrightarrow> num_sub_sign y z \<le> 0
   \<Longrightarrow> num_sub_sign x z \<le> 0"
  by (cases x; cases y; cases z) (auto split: if_splits)

end
