(* ===== verification/Survey.thy ===== *)
theory Survey
  imports JsNumber
begin

text \<open>
  The survey's columns and the two value extractors of \<open>src/script.js\<close>:
  \<^item> the column keys the program reads, spelt as in the source (Latin-1 letters as
    \<open>CHR 0x..\<close>: 0xEA is \<open>\<^verbatim>\<open>e\<close>\<close> with circumflex, 0xE0 and 0xE1 are
    \<open>\<^verbatim>\<open>a\<close>\<close> with grave and acute accent), and \<open>tableColumns\<close> (lines 173 to 181);
  \<^item> \<open>getNumber\<close> (lines 53 to 58): the first run of one to three decimal digits,
    read by \<open>parseInt\<close>; \<open>null\<close> (\<open>None\<close>) for an absent or empty value or a
    value without a digit;
  \<^item> \<open>getDate\<close> (lines 60 to 64): the first match of
    \<open>/(\d{4}\/\d{2}\/\d{2})/\<close>, as its year, month and day. What
    \<open>new Date(match[1])\<close> makes of it is implementation-defined (V8 reads it as
    local midnight and rolls impossible days over); the model keeps the three numbers,
    and the time value of the Date object is a parameter of the model where the
    program compares dates (\<open>Table\<close>).
\<close>

type_synonym ymd = "nat \<times> nat \<times> nat"

record column =
  col_key :: jsstr
  col_label :: jsstr

definition key_timestamp :: jsstr where
  "key_timestamp = ''Carimbo de data/hora''"

definition key_name :: jsstr where
  "key_name = ''1. Qual seu nome?''"

definition key_age :: jsstr where
  "key_age = ''2. Qual sua idade?''"

definition key_rating :: jsstr where
  "key_rating = ''3. Em uma escala de 1 a 5, como voc'' @ [CHR 0xEA] @ '' avaliaria sua experi''
     @ [CHR 0xEA] @ ''ncia na UBS? ( 1 = Muito ruim | 5 = Excelente )''"

definition key_expectations :: jsstr where
  "key_expectations = ''4. O atendimento que voc'' @ [CHR 0xEA] @ '' recebeu atendeu ''
     @ [CHR 0xE0] @ ''s suas expectativas?''"

definition key_schedule :: jsstr where
  "key_schedule = ''5. Em uma escala de 1 a 5, como voc'' @ [CHR 0xEA] @ '' avalia a experi''
     @ [CHR 0xEA] @ ''ncia com o hor'' @ [CHR 0xE1] @ ''rio corrido?  ( 1 = Muito ruim | 5 = Excelente )''"

definition key_comment :: jsstr where
  "key_comment = ''6. O que poderiamos melhorar? Resposta aberta:''"

definition tableColumns :: "column list" where
  "tableColumns =
     [\<lparr>col_key = key_timestamp, col_label = ''Data''\<rparr>,
      \<lparr>col_key = key_name, col_label = ''Nome''\<rparr>,
      \<lparr>col_key = key_age, col_label = ''Idade''\<rparr>,
      \<lparr>col_key = key_rating, col_label = ''Nota Experi'' @ [CHR 0xEA] @ ''ncia UBS''\<rparr>,
      \<lparr>col_key = key_expectations, col_label = ''Expectativas Atendidas''\<rparr>,
      \<lparr>col_key = key_schedule, col_label = ''Nota Hor'' @ [CHR 0xE1] @ ''rio Corrido''\<rparr>,
      \<lparr>col_key = key_comment, col_label = ''Sugest'' @ [CHR 0xE3] @ ''o/Melhoria''\<rparr>]"

fun first_digit_run :: "jsstr \<Rightarrow> jsstr option" where
  "first_digit_run [] = None"
| "first_digit_run (c # s) =
     (if is_digit c then Some (take 3 (takeWhile is_digit (c # s))) else first_digit_run s)"

definition getNumber :: "jsstr option \<Rightarrow> nat option" where
  "getNumber val =
     (case val of
        None \<Rightarrow> None
      | Some s \<Rightarrow> if s = [] then None else map_option digits_nat (first_digit_run s))"

definition date_pat :: "jsstr \<Rightarrow> bool" where
  "date_pat w \<longleftrightarrow>
     length w = 10 \<and> list_all is_digit (take 4 w) \<and> w ! 4 = CHR ''/''
     \<and> is_digit (w ! 5) \<and> is_digit (w ! 6) \<and> w ! 7 = CHR ''/''
     \<and> is_digit (w ! 8) \<and> is_digit (w ! 9)"

fun getDate :: "jsstr \<Rightarrow> ymd option" where
  "getDate [] = None"
| "getDate (c # s) =
     (let w = take 10 (c # s)
      in if date_pat w
         then Some (digits_nat (take 4 w), digits_nat (take 2 (drop 5 w)), digits_nat (drop 8 w))
         else getDate s)"

end
