(* ===== verification/Table.thy ===== *)
theory Table
  imports Survey "HOL-Library.Multiset"
begin

text \<open>
  The table of responses (\<open>src/script.js\<close> lines 170 to 256 and 282 to 299).
  The program keeps its view state in globals: \<open>tableData\<close>, \<open>currentPage\<close>,
  \<open>rowsPerPage\<close>, \<open>currentSearch\<close>, \<open>currentFilter\<close> (line 171) and
  \<open>window._sortKey\<close>, \<open>window._sortAsc\<close> (line 285). The model passes them as
  the record \<open>table_state\<close> and turns each handler into a function of it:
  \<open>setupTable\<close>, the \<open>input\<close> listener of the search box, the \<open>change\<close>
  listener of the rating filter, the page buttons of \<open>renderPagination\<close> and
  \<open>sortTable\<close>; \<open>renderTable\<close> is the view they all redraw. The button loop of
  \<open>renderPagination\<close> is the \<open>function\<close> \<open>pagination_loop\<close>, terminating by the
  measure \<open>pages + 1 - i\<close>.

  Two behaviours of the JavaScript engine are parameters (\<open>js_env\<close>):
  \<open>localeCompare\<close>, whose order is the host's collation, and the time value of
  \<open>new Date("yyyy/mm/dd")\<close>, whose parse is implementation-defined.
  \<open>Array.prototype.sort\<close> is stable (ECMA-262 since 2019); the model is a stable
  insertion sort, which is the order the engine must produce whenever the comparator
  is consistent; for an inconsistent comparator the order is implementation-defined.
\<close>

record js_env =
  locale_compare :: "jsstr \<Rightarrow> jsstr \<Rightarrow> int"
  date_value :: "ymd \<Rightarrow> jsnum"

record table_state =
  tableData :: "jsobj list"
  currentPage :: int
  currentSearch :: jsstr
  currentFilter :: jsstr
  sortKey :: "jsstr option"
  sortAsc :: bool

definition rowsPerPage :: int where
  "rowsPerPage = 10"

text \<open>The globals at load time; \<open>window._sortAsc\<close> is undefined and is never read
  before the first assignment, so its initial value is arbitrary.\<close>

definition initial_table :: table_state where
  "initial_table =
     \<lparr>tableData = [], currentPage = 1, currentSearch = [], currentFilter = [],
      sortKey = None, sortAsc = False\<rparr>"

definition setupTable :: "jsobj list \<Rightarrow> table_state \<Rightarrow> table_state" where
  "setupTable data st = st\<lparr>tableData := data, currentPage := 1\<rparr>"

subsection \<open>\<open>renderTable\<close> and \<open>renderPagination\<close>\<close>

definition row_matches :: "table_state \<Rightarrow> jsobj \<Rightarrow> bool" where
  "row_matches st row =
     (let rating = obj_get row (col_key (tableColumns ! 3))
      in if currentFilter st \<noteq> [] \<and> rating \<noteq> Some (currentFilter st) then False
         else if currentSearch st \<noteq> []
         then list_ex (\<lambda>col. js_includes (js_lower (obj_get_or_empty row (col_key col)))
                                         (currentSearch st)) tableColumns
         else True)"

definition filtered_rows :: "table_state \<Rightarrow> jsobj list" where
  "filtered_rows st = filter (row_matches st) (tableData st)"

text \<open>\<open>Array.prototype.slice\<close>: a negative bound counts from the end, bounds are
  clamped to the array.\<close>

definition js_slice :: "'a list \<Rightarrow> int \<Rightarrow> int \<Rightarrow> 'a list" where
  "js_slice xs s e =
     (let n = int (length xs);
          s' = (if s < 0 then max (n + s) 0 else min s n);
          e' = (if e < 0 then max (n + e) 0 else min e n)
      in take (nat (e' - s')) (drop (nat s') xs))"

definition page_start :: "table_state \<Rightarrow> int" where
  "page_start st = (currentPage st - 1) * rowsPerPage"

definition page_rows :: "table_state \<Rightarrow> jsobj list" where
  "page_rows st = js_slice (filtered_rows st) (page_start st) (page_start st + rowsPerPage)"

definition page_count :: "nat \<Rightarrow> nat" where
  "page_count cnt = nat ((int cnt + rowsPerPage - 1) div rowsPerPage)"

definition cell_text :: "jsobj \<Rightarrow> column \<Rightarrow> jsstr" where
  "cell_text row col =
     (case obj_get row (col_key col) of
        Some v \<Rightarrow> v
      | None \<Rightarrow> if col_key col \<noteq> [] \<and> last (col_key col) = CHR ''?''
                then obj_get_or_empty row (col_key col @ '' '') else [])"

text \<open>The loop \<open>for (let i = 1; i <= pages; i++)\<close> of \<open>renderPagination\<close>: one
  button per iteration, its number and whether it is the active one
  (\<open>i === currentPage\<close>). The loop counter rises towards the bound, so the measure
  \<open>pages + 1 - i\<close> falls.\<close>

function pagination_loop :: "int \<Rightarrow> nat \<Rightarrow> nat \<Rightarrow> (nat \<times> bool) list" where
  "pagination_loop cur pages i =
     (if i \<le> pages then (i, int i = cur) # pagination_loop cur pages (Suc i) else [])"
  by pat_completeness auto
termination by (relation "measure (\<lambda>(cur, pages, i). Suc pages - i)") auto

definition renderPagination :: "table_state \<Rightarrow> nat \<Rightarrow> (nat \<times> bool) list" where
  "renderPagination st cnt = pagination_loop (currentPage st) (page_count cnt) 1"

record table_view =
  view_rows :: "jsstr list list"
  view_buttons :: "(nat \<times> bool) list"
  view_shown :: int
  view_total :: nat

definition renderTable :: "table_state \<Rightarrow> table_view" where
  "renderTable st =
     (let cnt = length (filtered_rows st)
      in \<lparr>view_rows = map (\<lambda>row. map (cell_text row) tableColumns) (page_rows st),
          view_buttons = renderPagination st cnt,
          view_shown = min (int cnt) (page_start st + rowsPerPage),
          view_total = cnt\<rparr>)"

subsection \<open>\<open>sortTable\<close>\<close>

fun ins_by :: "('a \<Rightarrow> 'a \<Rightarrow> int) \<Rightarrow> 'a \<Rightarrow> 'a list \<Rightarrow> 'a list" where
  "ins_by c x [] = [x]"
| "ins_by c x (y # ys) = (if c x y \<le> 0 then x # y # ys else y # ins_by c x ys)"

definition sort_by :: "('a \<Rightarrow> 'a \<Rightarrow> int) \<Rightarrow> 'a list \<Rightarrow> 'a list" where
  "sort_by c xs = foldr (ins_by c) xs []"

definition date_num :: "js_env \<Rightarrow> jsstr \<Rightarrow> jsnum" where
  "date_num env s = (case getDate s of None \<Rightarrow> Fin 0 | Some d \<Rightarrow> date_value env d)"

definition row_cmp :: "js_env \<Rightarrow> nat \<Rightarrow> jsstr \<Rightarrow> bool \<Rightarrow> jsobj \<Rightarrow> jsobj \<Rightarrow> int" where
  "row_cmp env colIdx k asc a b =
     (let va = obj_get_or_empty a k; vb = obj_get_or_empty b k
      in if colIdx = 0
         then (let da = date_num env va; db = date_num env vb
               in if asc then num_sub_sign da db else num_sub_sign db da)
         else if \<not> js_isNaN (js_to_number va) \<and> \<not> js_isNaN (js_to_number vb)
         then (if asc then num_sub_sign (js_to_number va) (js_to_number vb)
               else num_sub_sign (js_to_number vb) (js_to_number va))
         else sgn (if asc then locale_compare env va vb else locale_compare env vb va))"

definition sortTable :: "js_env \<Rightarrow> nat \<Rightarrow> table_state \<Rightarrow> js_error + table_state" where
  "sortTable env colIdx st =
     (if length tableColumns \<le> colIdx then Inl TypeError
      else let k = col_key (tableColumns ! colIdx);
               asc = (if sortKey st = Some k then \<not> sortAsc st else True)
           in Inr (st\<lparr>sortAsc := asc, sortKey := Some k,
                     tableData := sort_by (row_cmp env colIdx k asc) (tableData st),
                     currentPage := 1\<rparr>))"

subsection \<open>Events\<close>

datatype table_event =
    SearchInput jsstr
  | FilterChange jsstr
  | PageClick nat
  | SortClick nat

fun table_step :: "js_env \<Rightarrow> table_state \<Rightarrow> table_event \<Rightarrow> js_error + table_state" where
  "table_step env st (SearchInput v) = Inr (st\<lparr>currentSearch := js_lower v, currentPage := 1\<rparr>)"
| "table_step env st (FilterChange v) = Inr (st\<lparr>currentFilter := v, currentPage := 1\<rparr>)"
| "table_step env st (PageClick i) = Inr (st\<lparr>currentPage := int i\<rparr>)"
| "table_step env st (SortClick colIdx) = sortTable env colIdx st"

text \<open>The events the page can raise in a state: any text in the search box, any
  option of the filter, a click on one of the page buttons the last
  \<open>renderPagination\<close> drew, a click on one of the seven column headers.\<close>

fun event_enabled :: "table_state \<Rightarrow> table_event \<Rightarrow> bool" where
  "event_enabled st (PageClick i) = (1 \<le> i \<and> i \<le> page_count (length (filtered_rows st)))"
| "event_enabled st (SortClick colIdx) = (colIdx < length tableColumns)"
| "event_enabled st ev = True"

inductive table_reach :: "js_env \<Rightarrow> jsobj list \<Rightarrow> table_state \<Rightarrow> bool"
  for env :: js_env and data :: "jsobj list" where
  init: "table_reach env data (setupTable data initial_table)"
| step: "table_reach env data st \<Longrightarrow> event_enabled st ev \<Longrightarrow> table_step env st ev = Inr st'
         \<Longrightarrow> table_reach env data st'"

definition table_inv :: "jsobj list \<Rightarrow> table_state \<Rightarrow> bool" where
  "table_inv data st \<longleftrightarrow>
     mset (tableData st) = mset data \<and> 1 \<le> currentPage st
     \<and> (currentPage st = 1 \<or> currentPage st \<le> int (page_count (length (filtered_rows st))))"

text \<open>A comparator is consistent on a set when its sign is antisymmetric and
  "not greater" is transitive there.\<close>

definition consistent_on :: "'a set \<Rightarrow> ('a \<Rightarrow> 'a \<Rightarrow> int) \<Rightarrow> bool" where
  "consistent_on A c \<longleftrightarrow>
     (\<forall>a\<in>A. \<forall>b\<in>A. c a b = - c b a)
     \<and> (\<forall>a\<in>A. \<forall>b\<in>A. \<forall>d\<in>A. c a b \<le> 0 \<longrightarrow> c b d \<le> 0 \<longrightarrow> c a d \<le> 0)"

subsection \<open>The stable insertion sort\<close>

lemma mset_ins_by [simp]: "mset (ins_by c x ys) = add_mset x (mset ys)"
  by (induction ys) auto

lemma mset_sort_by [simp]: "mset (sort_by c xs) = mset xs"
  by (induction xs) (simp_all add: sort_by_def)

lemma set_sort_by [simp]: "set (sort_by c xs) = set xs"
  by (metis mset_sort_by set_mset_mset)

lemma length_sort_by [simp]: "length (sort_by c xs) = length xs"
  by (metis mset_sort_by size_mset)

lemma sort_by_Cons: "sort_by c (x # xs) = ins_by c x (sort_by c xs)"
  by (simp add: sort_by_def)

lemma consistent_on_subset: "consistent_on A c \<Longrightarrow> B \<subseteq> A \<Longrightarrow> consistent_on B c"
  unfolding consistent_on_def by blast

lemma consistent_on_antisym:
  "consistent_on A c \<Longrightarrow> a \<in> A \<Longrightarrow> b \<in> A \<Longrightarrow> c a b = - c b a"
  unfolding consistent_on_def by blast

lemma consistent_on_trans:
  "consistent_on A c \<Longrightarrow> a \<in> A \<Longrightarrow> b \<in> A \<Longrightarrow> d \<in> A \<Longrightarrow> c a b \<le> 0 \<Longrightarrow> c b d \<le> 0
   \<Longrightarrow> c a d \<le> 0"
  unfolding consistent_on_def by blast

lemma set_ins_by [simp]: "set (ins_by c x ys) = insert x (set ys)"
  by (metis mset_ins_by set_mset_add_mset_insert set_mset_mset)

lemma sorted_ins_by:
  assumes "consistent_on (insert x (set ys)) c" and "sorted_wrt (\<lambda>a b. c a b \<le> 0) ys"
  shows "sorted_wrt (\<lambda>a b. c a b \<le> 0) (ins_by c x ys)"
  using assms
proof (induction ys)
  case (Cons y ys)
  let ?A = "insert x (set (y # ys))"
  have cons: "consistent_on (insert x (set ys)) c"
    using Cons.prems(1) by (rule consistent_on_subset) auto
  have y_ys: "\<forall>z\<in>set ys. c y z \<le> 0" and s_ys: "sorted_wrt (\<lambda>a b. c a b \<le> 0) ys"
    using Cons.prems(2) by simp_all
  show ?case
  proof (cases "c x y \<le> 0")
    case True
    have "\<forall>z\<in>set ys. c x z \<le> 0"
    proof
      fix z assume z: "z \<in> set ys"
      show "c x z \<le> 0"
        by (rule consistent_on_trans[OF Cons.prems(1), of x y z]) (use True z y_ys in auto)
    qed
    with True y_ys s_ys show ?thesis by simp
  next
    case False
    have "c y x = - c x y"
      by (rule consistent_on_antisym[OF Cons.prems(1)]) auto
    with False have "c y x \<le> 0" by simp
    with False y_ys Cons.IH[OF cons s_ys] show ?thesis by simp
  qed
qed simp

lemma sorted_sort_by:
  "consistent_on (set xs) c \<Longrightarrow> sorted_wrt (\<lambda>a b. c a b \<le> 0) (sort_by c xs)"
proof (induction xs)
  case (Cons x xs)
  have "consistent_on (set xs) c"
    using Cons.prems by (rule consistent_on_subset) auto
  with Cons.IH have "sorted_wrt (\<lambda>a b. c a b \<le> 0) (sort_by c xs)" .
  moreover have "consistent_on (insert x (set (sort_by c xs))) c"
    using Cons.prems by simp
  ultimately show ?case by (simp add: sort_by_Cons sorted_ins_by)
qed (simp add: sort_by_def)


lemma take_min_length: "take a ys = take (min a (length ys)) ys"
  by (simp add: min_def)

lemma js_slice_nat:
  assumes "0 \<le> s" and "s \<le> e"
  shows "js_slice xs s e = take (nat e - nat s) (drop (nat s) xs)"
proof (cases "s < int (length xs)")
  case True
  have "min (nat (min e (int (length xs)) - s)) (length (drop (nat s) xs))
        = min (nat e - nat s) (length (drop (nat s) xs))"
    using assms True by (simp add: min_def) linarith
  then show ?thesis
    using assms True take_min_length[of "nat (min e (int (length xs)) - s)" "drop (nat s) xs"]
      take_min_length[of "nat e - nat s" "drop (nat s) xs"]
    by (simp add: js_slice_def Let_def)
next
  case False
  with assms show ?thesis by (simp add: js_slice_def Let_def min_def)
qed

lemma page_count_eq: "page_count n = (n + 9) div 10"
  by (simp add: page_count_def rowsPerPage_def nat_div_distrib nat_add_distrib)
lemma page_rows_eq:
  "1 \<le> currentPage st \<Longrightarrow>
   page_rows st = take 10 (drop (10 * (nat (currentPage st) - 1)) (filtered_rows st))"
proof -
  assume p: "1 \<le> currentPage st"
  then have "0 \<le> page_start st" by (simp add: page_start_def rowsPerPage_def)
  moreover have "nat (page_start st + rowsPerPage) - nat (page_start st) = 10"
    using p by (simp add: page_start_def rowsPerPage_def)
  moreover have "nat (page_start st) = 10 * (nat (currentPage st) - 1)"
    using p by (simp add: page_start_def rowsPerPage_def nat_mult_distrib nat_diff_distrib)
  ultimately show ?thesis
    by (simp add: page_rows_def js_slice_nat rowsPerPage_def)
qed

lemma concat_chunks:
  "concat (map (\<lambda>p. take k (drop (k * p) xs)) [0..<m]) = take (k * m) xs"
proof (induction m)
  case (Suc m)
  have "take (k * Suc m) xs = take (k * m) xs @ take k (drop (k * m) xs)"
    by (metis mult_Suc_right add.commute take_add)
  with Suc show ?case by simp
qed simp

lemma row_matches_page [simp]: "row_matches (st\<lparr>currentPage := p\<rparr>) = row_matches st"
  by (simp add: fun_eq_iff row_matches_def)

lemma filtered_rows_page [simp]: "filtered_rows (st\<lparr>currentPage := p\<rparr>) = filtered_rows st"
  by (simp add: filtered_rows_def)

lemma page_rows_at:
  "page_rows (st\<lparr>currentPage := 1 + int q\<rparr>) = take 10 (drop (10 * q) (filtered_rows st))"
  by (simp add: page_rows_eq nat_add_distrib)

lemma pages_cover: "length xs \<le> 10 * page_count (length xs)"
  by (simp add: page_count_eq)
lemma consistent_on_key:
  "\<forall>a\<in>A. f a \<noteq> NaN \<Longrightarrow> consistent_on A (\<lambda>a b. num_sub_sign (f a) (f b))"
  unfolding consistent_on_def using num_sub_sign_antisym num_sub_sign_trans by metis

lemma consistent_on_key_rev:
  "\<forall>a\<in>A. f a \<noteq> NaN \<Longrightarrow> consistent_on A (\<lambda>a b. num_sub_sign (f b) (f a))"
  unfolding consistent_on_def using num_sub_sign_antisym num_sub_sign_trans by metis

lemma sortTable_Inr_iff:
  "sortTable env colIdx st = Inr st' \<longleftrightarrow>
   colIdx < length tableColumns \<and>
   (let k = col_key (tableColumns ! colIdx);
        asc = (if sortKey st = Some k then \<not> sortAsc st else True)
    in st' = st\<lparr>sortAsc := asc, sortKey := Some k,
                 tableData := sort_by (row_cmp env colIdx k asc) (tableData st),
                 currentPage := 1\<rparr>)"
  by (auto simp: sortTable_def Let_def)

lemma table_step_inv:
  assumes "table_inv data st" and "event_enabled st ev" and "table_step env st ev = Inr st'"
  shows "table_inv data st'"
proof (cases ev)
  case (PageClick i)
  with assms show ?thesis by (auto simp: table_inv_def)
next
  case (SortClick colIdx)
  with assms show ?thesis by (auto simp: table_inv_def sortTable_Inr_iff Let_def)
qed (use assms in \<open>auto simp: table_inv_def\<close>)

lemma table_inv_init: "table_inv data (setupTable data initial_table)"
  by (simp add: table_inv_def setupTable_def initial_table_def)

lemma table_reach_table_inv: "table_reach env data st \<Longrightarrow> table_inv data st"
proof (induction rule: table_reach.induct)
  case init
  show ?case by (rule table_inv_init)
next
  case (step st ev st')
  then show ?case by (blast intro: table_step_inv)
qed

lemma page_index_bound:
  "0 < p \<Longrightarrow> p \<le> page_count n \<Longrightarrow> 10 * (p - 1) < n"
proof -
  assume "0 < p" and "p \<le> page_count n"
  moreover have "10 * ((n + 9) div 10) \<le> n + 9" by simp
  ultimately show ?thesis by (simp add: page_count_eq)
qed
lemma consistent_on_cong:
  assumes eq: "\<forall>a\<in>A. \<forall>b\<in>A. c a b = c' a b" and co: "consistent_on A c'"
  shows "consistent_on A c"
  unfolding consistent_on_def
proof (intro conjI ballI impI)
  fix a b assume "a \<in> A" "b \<in> A"
  then show "c a b = - c b a" using eq consistent_on_antisym[OF co, of a b] by simp
next
  fix a b d assume "a \<in> A" "b \<in> A" "d \<in> A" "c a b \<le> 0" "c b d \<le> 0"
  then show "c a d \<le> 0" using eq consistent_on_trans[OF co, of a b d] by simp
qed

lemma row_cmp_numeric:
  "colIdx \<noteq> 0 \<Longrightarrow> js_to_number (obj_get_or_empty a k) \<noteq> NaN \<Longrightarrow> js_to_number (obj_get_or_empty b k) \<noteq> NaN \<Longrightarrow>
   row_cmp env colIdx k asc a b =
     (if asc then num_sub_sign (js_to_number (obj_get_or_empty a k)) (js_to_number (obj_get_or_empty b k))
      else num_sub_sign (js_to_number (obj_get_or_empty b k)) (js_to_number (obj_get_or_empty a k)))"
  by (simp add: row_cmp_def js_isNaN_def Let_def)

lemma sort_by_numeric_sorted:
  assumes "colIdx \<noteq> 0" and "\<forall>r\<in>set xs. js_to_number (obj_get_or_empty r k) \<noteq> NaN"
  shows "sorted_wrt (\<lambda>a b. if asc
            then num_sub_sign (js_to_number (obj_get_or_empty a k)) (js_to_number (obj_get_or_empty b k)) \<le> 0
            else num_sub_sign (js_to_number (obj_get_or_empty b k)) (js_to_number (obj_get_or_empty a k)) \<le> 0)
           (sort_by (row_cmp env colIdx k asc) xs)"
proof -
  let ?f = "\<lambda>r. js_to_number (obj_get_or_empty r k)"
  let ?c = "row_cmp env colIdx k asc"
  let ?A = "set xs"
  have eq: "\<forall>a\<in>?A. \<forall>b\<in>?A. ?c a b
             = (if asc then num_sub_sign (?f a) (?f b) else num_sub_sign (?f b) (?f a))"
    using assms by (simp add: row_cmp_numeric)
  have "consistent_on ?A (\<lambda>a b. if asc then num_sub_sign (?f a) (?f b) else num_sub_sign (?f b) (?f a))"
    using assms(2) consistent_on_key[of ?A ?f] consistent_on_key_rev[of ?A ?f] by (cases asc) simp_all
  with eq have "consistent_on ?A ?c" by (rule consistent_on_cong)
  then have "sorted_wrt (\<lambda>a b. ?c a b \<le> 0) (sort_by ?c xs)"
    by (rule sorted_sort_by)
  then show ?thesis
    using eq by (auto elim!: sorted_wrt_mono_rel[rotated])
qed

subsection \<open>Properties of the table\<close>

text \<open>
  C7. Invariant of the table controller: in every state reachable from
  \<open>setupTable\<close> by the events the page offers, the rows are a permutation of the
  loaded data, the current page is at least 1, and it is page 1 or one of the pages
  the current filter produces.
\<close>

theorem table_reach_inv:
  "table_reach env data st \<Longrightarrow>
   mset (tableData st) = mset data \<and> 1 \<le> currentPage st
   \<and> (currentPage st = 1 \<or> currentPage st \<le> int (page_count (length (filtered_rows st))))"
  using table_reach_table_inv by (simp add: table_inv_def)

theorem table_reach_inv_witness:
  "mset (tableData (setupTable [[(''a'', ''1'')]] initial_table)) = mset [[(''a'', ''1'')]]
   \<and> 1 \<le> currentPage (setupTable [[(''a'', ''1'')]] initial_table)"
  using table_reach_inv[OF table_reach.init[of "\<lparr>locale_compare = (\<lambda>a b. 0), date_value = (\<lambda>d. NaN)\<rparr>"
      "[[(''a'', ''1'')]]"]]
  by simp

text \<open>
  C19. In every reachable state the table never shows an empty page while some row
  matches the search and the filter.
\<close>

theorem table_page_nonempty:
  assumes "table_reach env data st" and "filtered_rows st \<noteq> []"
  shows "page_rows st \<noteq> []"
proof -
  from assms(1) have inv: "table_inv data st" by (rule table_reach_table_inv)
  then have p1: "1 \<le> currentPage st" by (simp add: table_inv_def)
  have "10 * (nat (currentPage st) - 1) < length (filtered_rows st)"
  proof (cases "currentPage st = 1")
    case True
    with assms(2) show ?thesis by simp
  next
    case False
    with inv have "nat (currentPage st) \<le> page_count (length (filtered_rows st))"
      by (simp add: table_inv_def nat_le_iff)
    with p1 show ?thesis by (intro page_index_bound) simp_all
  qed
  then show ?thesis by (simp add: page_rows_eq[OF p1])
qed

theorem table_page_nonempty_witness:
  "page_rows (setupTable [[(key_rating, ''5'')]] initial_table) \<noteq> []"
proof -
  let ?env = "\<lparr>locale_compare = (\<lambda>a b. 0), date_value = (\<lambda>d. NaN)\<rparr>"
  have "filtered_rows (setupTable [[(key_rating, ''5'')]] initial_table) \<noteq> []"
    by (simp add: filtered_rows_def setupTable_def initial_table_def row_matches_def)
  then show ?thesis
    using table_page_nonempty[OF table_reach.init[of ?env "[[(key_rating, ''5'')]]"]] by simp
qed

text \<open>
  C20. With an empty search term and an empty filter value every row passes the
  filter: the filtered rows are the full data, in order.
\<close>

theorem filtered_rows_no_criteria:
  "currentSearch st = [] \<Longrightarrow> currentFilter st = [] \<Longrightarrow> filtered_rows st = tableData st"
  by (simp add: filtered_rows_def row_matches_def)

theorem filtered_rows_no_criteria_witness:
  "filtered_rows (setupTable [[(''a'', ''x'')], [(''a'', ''y'')]] initial_table)
   = [[(''a'', ''x'')], [(''a'', ''y'')]]"
  using filtered_rows_no_criteria[of "setupTable [[(''a'', ''x'')], [(''a'', ''y'')]] initial_table"]
  by (simp add: setupTable_def initial_table_def)

text \<open>
  C21. Pagination partitions the filtered rows: the pages 1 to
  \<open>ceil(n / 10)\<close> that \<open>renderPagination\<close> offers, shown one after the other,
  are exactly the filtered rows, in order.
\<close>

theorem pages_partition:
  "concat (map (\<lambda>p. page_rows (st\<lparr>currentPage := int p\<rparr>))
                [1..<page_count (length (filtered_rows st)) + 1])
   = filtered_rows st"
proof -
  let ?xs = "filtered_rows st" and ?m = "page_count (length (filtered_rows st))"
  have "map (\<lambda>p. page_rows (st\<lparr>currentPage := int p\<rparr>)) [1..<?m + 1]
        = map (\<lambda>q. take 10 (drop (10 * q) ?xs)) [0..<?m]"
    by (simp add: map_Suc_upt[symmetric] page_rows_at del: upt_Suc)
  then show ?thesis by (simp add: concat_chunks pages_cover)
qed

text \<open>
  C9. The number of pages is \<open>ceil(n / 10)\<close> for n filtered rows, and the last page
  holds the remaining \<open>n - 10 * (pages - 1)\<close> rows: 25 rows give 3 pages, the last
  with 5 rows.
\<close>

theorem last_page_size:
  assumes "filtered_rows st \<noteq> []"
  shows "page_count (length (filtered_rows st)) = (length (filtered_rows st) + 9) div 10
         \<and> length (page_rows (st\<lparr>currentPage := int (page_count (length (filtered_rows st)))\<rparr>))
           = length (filtered_rows st) - 10 * (page_count (length (filtered_rows st)) - 1)"
proof -
  let ?n = "length (filtered_rows st)"
  let ?m = "page_count ?n"
  from assms have "Suc 0 \<le> ?n" by (simp add: Suc_le_eq)
  then have m: "0 < ?m" by (simp add: page_count_eq div_greater_zero_iff)
  then have "int ?m = 1 + int (?m - 1)" by simp
  then have "page_rows (st\<lparr>currentPage := int ?m\<rparr>)
             = take 10 (drop (10 * (?m - 1)) (filtered_rows st))"
    by (simp only: page_rows_at)
  moreover have "?n - 10 * (?m - 1) \<le> 10"
    by (simp add: page_count_eq)
  ultimately show ?thesis by (simp add: page_count_eq)
qed
theorem last_page_size_witness:
  "page_count (length (filtered_rows (setupTable (replicate 25 [(''a'', ''x'')]) initial_table))) = 3
   \<and> length (page_rows ((setupTable (replicate 25 [(''a'', ''x'')]) initial_table)\<lparr>currentPage := 3\<rparr>)) = 5"
proof -
  let ?st = "setupTable (replicate 25 [(''a'', ''x'')]) initial_table"
  have f: "filtered_rows ?st = replicate 25 [(''a'', ''x'')]"
    by (simp add: filtered_rows_def row_matches_def setupTable_def initial_table_def)
  then have "filtered_rows ?st \<noteq> []" by simp
  from last_page_size[OF this] f show ?thesis by (simp add: page_count_eq)
qed

text \<open>
  C8. Clicking the same column twice toggles the order of the rows: on a column other
  than the date column whose values all read as numbers, and which is not the current
  sort key, the first click leaves the rows in ascending order of value and the
  second in descending order, with the same rows.
\<close>

theorem sortTable_toggle:
  assumes "sortTable env colIdx st = Inr st1" and "sortTable env colIdx st1 = Inr st2"
    and "sortKey st \<noteq> Some (col_key (tableColumns ! colIdx))" and "colIdx \<noteq> 0"
    and "\<forall>r\<in>set (tableData st). js_to_number (obj_get_or_empty r (col_key (tableColumns ! colIdx))) \<noteq> NaN"
  shows "sorted_wrt (\<lambda>a b. num_sub_sign (js_to_number (obj_get_or_empty a (col_key (tableColumns ! colIdx))))
                         (js_to_number (obj_get_or_empty b (col_key (tableColumns ! colIdx)))) \<le> 0)
           (tableData st1)
         \<and> sorted_wrt (\<lambda>a b. num_sub_sign (js_to_number (obj_get_or_empty b (col_key (tableColumns ! colIdx))))
                         (js_to_number (obj_get_or_empty a (col_key (tableColumns ! colIdx)))) \<le> 0)
           (tableData st2)
         \<and> mset (tableData st2) = mset (tableData st)"
proof -
  let ?k = "col_key (tableColumns ! colIdx)"
  have d1: "tableData st1 = sort_by (row_cmp env colIdx ?k True) (tableData st)"
    and k1: "sortKey st1 = Some ?k" and a1: "sortAsc st1"
    using assms(1,3) by (auto simp: sortTable_Inr_iff Let_def)
  have d2: "tableData st2 = sort_by (row_cmp env colIdx ?k False) (tableData st1)"
    using assms(2) k1 a1 by (auto simp: sortTable_Inr_iff Let_def)
  have n1: "\<forall>r\<in>set (tableData st1). js_to_number (obj_get_or_empty r ?k) \<noteq> NaN"
    using assms(5) d1 by simp
  show ?thesis
    using sort_by_numeric_sorted[OF assms(4,5), of True env]
      sort_by_numeric_sorted[OF assms(4) n1, of False env] d1 d2 by simp
qed

text \<open>
  C22. Sorting a column other than the date column whose values all read as numbers
  orders the rows by numeric value, ascending or descending as \<open>sortAsc\<close> says.
\<close>

theorem sortTable_sorted_numeric:
  assumes "sortTable env colIdx st = Inr st'" and "colIdx \<noteq> 0"
    and "\<forall>r\<in>set (tableData st). js_to_number (obj_get_or_empty r (col_key (tableColumns ! colIdx))) \<noteq> NaN"
  shows "sorted_wrt (\<lambda>a b.
           (let va = js_to_number (obj_get_or_empty a (col_key (tableColumns ! colIdx)));
                vb = js_to_number (obj_get_or_empty b (col_key (tableColumns ! colIdx)))
            in if sortAsc st' then num_sub_sign va vb \<le> 0 else num_sub_sign vb va \<le> 0))
         (tableData st')"
proof -
  let ?k = "col_key (tableColumns ! colIdx)"
  let ?asc = "if sortKey st = Some ?k then \<not> sortAsc st else True"
  from assms(1) have "sortAsc st' = ?asc"
    and "tableData st' = sort_by (row_cmp env colIdx ?k ?asc) (tableData st)"
    by (auto simp: sortTable_Inr_iff Let_def)
  then show ?thesis
    using sort_by_numeric_sorted[OF assms(2,3), of ?asc env] by (simp add: Let_def)
qed

theorem sortTable_toggle_witness:
  "\<exists>st1 st2.
     sortTable \<lparr>locale_compare = (\<lambda>a b. 0), date_value = (\<lambda>d. NaN)\<rparr> 3
       (setupTable [[(key_rating, ''3'')], [(key_rating, ''1'')], [(key_rating, ''2'')]] initial_table)
       = Inr st1
     \<and> sortTable \<lparr>locale_compare = (\<lambda>a b. 0), date_value = (\<lambda>d. NaN)\<rparr> 3 st1 = Inr st2
     \<and> sorted_wrt (\<lambda>a b. num_sub_sign (js_to_number (obj_get_or_empty a key_rating))
                                      (js_to_number (obj_get_or_empty b key_rating)) \<le> 0) (tableData st1)
     \<and> sorted_wrt (\<lambda>a b. num_sub_sign (js_to_number (obj_get_or_empty b key_rating))
                                      (js_to_number (obj_get_or_empty a key_rating)) \<le> 0) (tableData st2)
     \<and> map (map snd) (tableData st1) = [[''1''], [''2''], [''3'']]
     \<and> map (map snd) (tableData st2) = [[''3''], [''2''], [''1'']]"
proof -
  define env :: js_env where "env = \<lparr>locale_compare = (\<lambda>a b. 0), date_value = (\<lambda>d. NaN)\<rparr>"
  define st0 where
    "st0 = setupTable [[(key_rating, ''3'')], [(key_rating, ''1'')], [(key_rating, ''2'')]] initial_table"
  define st1 where "st1 = projr (sortTable env 3 st0)"
  define st2 where "st2 = projr (sortTable env 3 st1)"
  have s1: "sortTable env 3 st0 = Inr st1"
    by (simp add: st1_def sortTable_def tableColumns_def Let_def)
  have s2: "sortTable env 3 st1 = Inr st2"
    by (simp add: st2_def sortTable_def tableColumns_def Let_def)
  have k0: "sortKey st0 \<noteq> Some (col_key (tableColumns ! 3))"
    by (simp add: st0_def setupTable_def initial_table_def)
  have nums: "\<forall>r\<in>set (tableData st0).
      js_to_number (obj_get_or_empty r (col_key (tableColumns ! 3))) \<noteq> NaN"
    unfolding st0_def by code_simp
  have k: "col_key (tableColumns ! 3) = key_rating"
    by (simp add: tableColumns_def)
  from sortTable_toggle[OF s1 s2 k0 _ nums] k
  have srt: "sorted_wrt (\<lambda>a b. num_sub_sign (js_to_number (obj_get_or_empty a key_rating))
                                      (js_to_number (obj_get_or_empty b key_rating)) \<le> 0) (tableData st1)
     \<and> sorted_wrt (\<lambda>a b. num_sub_sign (js_to_number (obj_get_or_empty b key_rating))
                                      (js_to_number (obj_get_or_empty a key_rating)) \<le> 0) (tableData st2)"
    by simp
  have d1: "map (map snd) (tableData st1) = [[''1''], [''2''], [''3'']]"
    unfolding st1_def st0_def env_def by code_simp
  have d2: "map (map snd) (tableData st2) = [[''3''], [''2''], [''1'']]"
    unfolding st2_def st1_def st0_def env_def by code_simp
  have "sortTable \<lparr>locale_compare = (\<lambda>a b. 0), date_value = (\<lambda>d. NaN)\<rparr> 3
       (setupTable [[(key_rating, ''3'')], [(key_rating, ''1'')], [(key_rating, ''2'')]] initial_table)
       = Inr st1
     \<and> sortTable \<lparr>locale_compare = (\<lambda>a b. 0), date_value = (\<lambda>d. NaN)\<rparr> 3 st1 = Inr st2"
    using s1 s2 unfolding env_def st0_def by simp
  then show ?thesis
    by (intro exI[of _ st1] exI[of _ st2]) (use srt d1 d2 in simp)
qed

theorem sortTable_sorted_numeric_witness:
  "\<exists>st'. sortTable \<lparr>locale_compare = (\<lambda>a b. 0), date_value = (\<lambda>d. NaN)\<rparr> 3
       (setupTable [[(key_rating, ''3'')], [(key_rating, '' 1'')], [(key_rating, ''2.5'')]] initial_table)
       = Inr st'
     \<and> sorted_wrt (\<lambda>a b. num_sub_sign (js_to_number (obj_get_or_empty a key_rating))
                                      (js_to_number (obj_get_or_empty b key_rating)) \<le> 0)
         (tableData st')"
proof -
  define env :: js_env where "env = \<lparr>locale_compare = (\<lambda>a b. 0), date_value = (\<lambda>d. NaN)\<rparr>"
  define st0 where
    "st0 = setupTable [[(key_rating, ''3'')], [(key_rating, '' 1'')], [(key_rating, ''2.5'')]] initial_table"
  define st1 where "st1 = projr (sortTable env 3 st0)"
  have s1: "sortTable env 3 st0 = Inr st1"
    by (simp add: st1_def sortTable_def tableColumns_def Let_def)
  have nums: "\<forall>r\<in>set (tableData st0).
      js_to_number (obj_get_or_empty r (col_key (tableColumns ! 3))) \<noteq> NaN"
    unfolding st0_def by code_simp
  have asc: "sortAsc st1"
    using s1 by (simp add: sortTable_Inr_iff st0_def setupTable_def initial_table_def Let_def)
  have k: "col_key (tableColumns ! 3) = key_rating"
    by (simp add: tableColumns_def)
  from sortTable_sorted_numeric[OF s1 _ nums] asc k
  have "sorted_wrt (\<lambda>a b. num_sub_sign (js_to_number (obj_get_or_empty a key_rating))
                                      (js_to_number (obj_get_or_empty b key_rating)) \<le> 0)
         (tableData st1)"
    by (simp add: Let_def)
  moreover have "sortTable \<lparr>locale_compare = (\<lambda>a b. 0), date_value = (\<lambda>d. NaN)\<rparr> 3
       (setupTable [[(key_rating, ''3'')], [(key_rating, '' 1'')], [(key_rating, ''2.5'')]] initial_table)
       = Inr st1"
    using s1 unfolding env_def st0_def by simp
  ultimately show ?thesis by (intro exI[of _ st1]) simp
qed
end
