(* ===== verification/CsvParser.thy ===== *)
theory CsvParser
  imports JsObject
begin

text \<open>
  The CSV parser, \<open>parseCSV\<close> of \<open>src/script.js\<close> (lines 2 to 31).
\<close>

fun split_nl :: "jsstr \<Rightarrow> jsstr \<Rightarrow> jsstr list" where
  "split_nl cur [] = [cur]"
| "split_nl cur [c] = (if c = LF then [cur, []] else [cur @ [c]])"
| "split_nl cur (c # d # s) =
     (if c = LF then cur # split_nl [] (d # s)
      else if c = CR \<and> d = LF then cur # split_nl [] s
      else split_nl (cur @ [c]) (d # s))"

definition split_lines :: "jsstr \<Rightarrow> jsstr list" where
  "split_lines txt = split_nl [] txt"

definition nonblank_lines :: "jsstr \<Rightarrow> jsstr list" where
  "nonblank_lines txt = filter (\<lambda>l. js_trim l \<noteq> []) (split_lines txt)"

definition strip_row_prefix :: "jsstr \<Rightarrow> jsstr" where
  "strip_row_prefix s =
     (let ds = takeWhile is_digit s; r = dropWhile is_digit s
      in if ds \<noteq> [] \<and> r \<noteq> [] \<and> hd r = PIPE then tl r else s)"

definition count_quotes :: "jsstr \<Rightarrow> nat" where
  "count_quotes s = length (filter (\<lambda>c. c = QUOTE) s)"

fun split_header_aux :: "jsstr \<Rightarrow> jsstr \<Rightarrow> jsstr list" where
  "split_header_aux cur [] = [cur]"
| "split_header_aux cur (c # s) =
     (if c = COMMA \<and> even (count_quotes s) then cur # split_header_aux [] s
      else split_header_aux (cur @ [c]) s)"

definition split_header :: "jsstr \<Rightarrow> jsstr list" where
  "split_header s = split_header_aux [] s"

definition strip_quotes :: "jsstr \<Rightarrow> jsstr" where
  "strip_quotes s =
     (let s1 = (if s \<noteq> [] \<and> hd s = QUOTE then tl s else s)
      in if s1 \<noteq> [] \<and> last s1 = QUOTE then butlast s1 else s1)"

definition clean_cell :: "jsstr \<Rightarrow> jsstr" where
  "clean_cell s = js_trim (strip_quotes s)"

definition parse_header :: "jsstr \<Rightarrow> jsstr list" where
  "parse_header line0 = map js_trim (map clean_cell (split_header (strip_row_prefix line0)))"

fun scan_fields :: "bool \<Rightarrow> jsstr \<Rightarrow> jsstr \<Rightarrow> jsstr list" where
  "scan_fields inq cur [] = [cur]"
| "scan_fields inq cur (c # s) =
     (if c = QUOTE then scan_fields (\<not> inq) cur s
      else if c = COMMA \<and> \<not> inq then cur # scan_fields inq [] s
      else scan_fields inq (cur @ [c]) s)"

definition split_fields :: "jsstr \<Rightarrow> jsstr list" where
  "split_fields s = scan_fields False [] s"

definition cell_at :: "jsstr list \<Rightarrow> nat \<Rightarrow> jsstr" where
  "cell_at parts i = (if i < length parts then parts ! i else [])"

fun build_record :: "jsobj \<Rightarrow> nat \<Rightarrow> jsstr list \<Rightarrow> jsstr list \<Rightarrow> jsobj" where
  "build_record ob i [] parts = ob"
| "build_record ob i (k # ks) parts =
     build_record (obj_set ob k (clean_cell (cell_at parts i))) (Suc i) ks parts"

definition parse_row :: "jsstr list \<Rightarrow> jsstr \<Rightarrow> jsobj" where
  "parse_row header line = build_record [] 0 header (split_fields (strip_row_prefix line))"

definition parseCSV :: "jsstr \<Rightarrow> js_error + jsobj list" where
  "parseCSV txt =
     (case nonblank_lines txt of
        [] \<Rightarrow> Inl TypeError
      | l0 # ls \<Rightarrow> Inr (map (parse_row (parse_header l0)) ls))"

subsection \<open>Line splitting\<close>

lemma split_nl_no_LF: "LF \<notin> set l \<Longrightarrow> split_nl cur l = [cur @ l]"
proof (induction cur l rule: split_nl.induct)
  case (3 cur c d s)
  then show ?case by auto
qed simp_all

lemma split_nl_CRLF:
  "LF \<notin> set l \<Longrightarrow> split_nl cur (l @ CR # LF # rest) = (cur @ l) # split_nl [] rest"
proof (induction l arbitrary: cur)
  case (Cons a l)
  then show ?case by (cases l) auto
qed simp

lemma split_lines_join_CRLF:
  "ls \<noteq> [] \<Longrightarrow> \<forall>l\<in>set ls. LF \<notin> set l \<Longrightarrow> split_lines (js_join [CR, LF] ls) = ls"
proof (induction "[CR, LF]" ls rule: js_join.induct)
  case (3 x y xs)
  then show ?case by (simp add: split_lines_def split_nl_CRLF)
qed (simp_all add: split_lines_def split_nl_no_LF)

lemma split_nl_chars:
  "l \<in> set (split_nl cur s) \<Longrightarrow> set l \<subseteq> set cur \<union> set s"
  by (induction cur s rule: split_nl.induct) (auto split: if_splits)

lemma split_nl_covers:
  "c \<in> set cur \<union> set s \<Longrightarrow> c \<noteq> LF \<Longrightarrow> c \<noteq> CR \<Longrightarrow> \<exists>l\<in>set (split_nl cur s). c \<in> set l"
  by (induction cur s rule: split_nl.induct) (auto split: if_splits)

lemma nonblank_lines_Nil_iff:
  "nonblank_lines txt = [] \<longleftrightarrow> (\<forall>c\<in>set txt. js_ws c)"
proof
  assume nb: "nonblank_lines txt = []"
  show "\<forall>c\<in>set txt. js_ws c"
  proof
    fix c assume c: "c \<in> set txt"
    show "js_ws c"
    proof (cases "c = LF \<or> c = CR")
      case False
      with c have "\<exists>l\<in>set (split_lines txt). c \<in> set l"
        unfolding split_lines_def by (intro split_nl_covers) auto
      with nb show ?thesis by (auto simp: nonblank_lines_def filter_empty_conv js_trim_Nil_iff)
    qed (auto simp: js_simps)
  qed
next
  assume "\<forall>c\<in>set txt. js_ws c"
  then show "nonblank_lines txt = []"
    by (auto simp: nonblank_lines_def filter_empty_conv js_trim_Nil_iff split_lines_def
        dest!: split_nl_chars)
qed

subsection \<open>The row-index prefix\<close>

lemma strip_row_prefix_digits:
  "ds \<noteq> [] \<Longrightarrow> \<forall>c\<in>set ds. is_digit c \<Longrightarrow> strip_row_prefix (ds @ PIPE # l) = l"
  by (simp add: strip_row_prefix_def js_simps)

lemma strip_row_prefix_no_digit:
  "s = [] \<or> \<not> is_digit (hd s) \<Longrightarrow> strip_row_prefix s = s"
  by (cases s) (auto simp: strip_row_prefix_def)

subsection \<open>The character scan of a data line\<close>

lemma scan_fields_quoted:
  "QUOTE \<notin> set v \<Longrightarrow> scan_fields True cur (v @ QUOTE # rest) = scan_fields False (cur @ v) rest"
  by (induction v arbitrary: cur) auto

lemma split_fields_quoted_join:
  "vs \<noteq> [] \<Longrightarrow> \<forall>v\<in>set vs. QUOTE \<notin> set v \<Longrightarrow>
   scan_fields False [] (js_join [COMMA] (map (\<lambda>v. QUOTE # v @ [QUOTE]) vs)) = vs"
proof (induction vs rule: induct_list012)
  case (2 x)
  then show ?case using scan_fields_quoted[of x "[]" "[]"] by simp
next
  case (3 x y zs)
  then show ?case using scan_fields_quoted[of x "[]"] by simp
qed simp

subsection \<open>The header split against the data-line scan\<close>

lemma count_quotes_Nil [simp]: "count_quotes [] = 0"
  by (simp add: count_quotes_def)

lemma count_quotes_Cons [simp]:
  "count_quotes (c # s) = (if c = QUOTE then Suc (count_quotes s) else count_quotes s)"
  by (simp add: count_quotes_def)

lemma split_header_aux_scan:
  "even (count_quotes s) = (\<not> inq) \<Longrightarrow>
   map (filter (\<lambda>c. c \<noteq> QUOTE)) (split_header_aux cur s)
   = scan_fields inq (filter (\<lambda>c. c \<noteq> QUOTE) cur) s"
proof (induction s arbitrary: cur inq)
  case (Cons c s)
  show ?case
  proof (cases "c = QUOTE")
    case True
    with Cons.prems have "even (count_quotes s) = (\<not> \<not> inq)" by simp
    with True Cons.IH[where cur="cur @ [c]" and inq="\<not> inq"] show ?thesis by simp
  next
    case False
    with Cons.prems have par: "even (count_quotes s) = (\<not> inq)" by simp
    show ?thesis
      using False par Cons.IH[where cur="[]" and inq=inq] Cons.IH[where cur="cur @ [c]" and inq=inq] by auto
  qed
qed simp

subsection \<open>Building a record\<close>

lemma build_record_wf: "obj_wf ob \<Longrightarrow> obj_wf (build_record ob i ks parts)"
  by (induction ob i ks parts rule: build_record.induct) simp_all

lemma build_record_keys:
  "fst ` set (build_record ob i ks parts) = fst ` set ob \<union> (set ks - {''__proto__''})"
  by (induction ob i ks parts rule: build_record.induct) auto

lemma build_record_other:
  "k \<notin> set ks \<Longrightarrow> obj_get (build_record ob i ks parts) k = obj_get ob k"
  by (induction ob i ks parts rule: build_record.induct) auto

lemma build_record_nth:
  "distinct ks \<Longrightarrow> j < length ks \<Longrightarrow> ks ! j \<noteq> ''__proto__'' \<Longrightarrow>
   obj_get (build_record ob i ks parts) (ks ! j) = Some (clean_cell (cell_at parts (i + j)))"
proof (induction ks arbitrary: ob i j)
  case (Cons k ks)
  show ?case
  proof (cases j)
    case 0
    with Cons.prems show ?thesis by (simp add: build_record_other)
  next
    case (Suc j')
    with Cons.prems Cons.IH[of j'] show ?thesis by simp
  qed
qed simp

lemma build_record_append:
  "distinct ks \<Longrightarrow> ''__proto__'' \<notin> set ks \<Longrightarrow> set ks \<inter> set (map fst ob) = {} \<Longrightarrow>
   build_record ob i ks parts
   = ob @ zip ks (map (\<lambda>j. clean_cell (cell_at parts j)) [i..<i + length ks])"
proof (induction ks arbitrary: ob i)
  case (Cons k ks)
  then have "obj_set ob k (clean_cell (cell_at parts i)) = ob @ [(k, clean_cell (cell_at parts i))]"
    by (auto simp: obj_set_def)
  with Cons show ?case by (simp add: upt_rec)
qed simp

subsection \<open>Parsing a whole text\<close>

lemma nonblank_lines_join_CRLF:
  "ls \<noteq> [] \<Longrightarrow> \<forall>l\<in>set ls. LF \<notin> set l \<Longrightarrow>
   nonblank_lines (js_join [CR, LF] ls) = filter (\<lambda>l. js_trim l \<noteq> []) ls"
  by (simp add: nonblank_lines_def split_lines_join_CRLF)

lemma clean_cell_plain:
  "QUOTE \<notin> set v \<Longrightarrow> trimmed v \<Longrightarrow> clean_cell v = v"
proof -
  assume q: "QUOTE \<notin> set v" and t: "trimmed v"
  have "v = [] \<or> (hd v \<noteq> QUOTE \<and> last v \<noteq> QUOTE)"
    using q by (metis hd_in_set last_in_set)
  then have "strip_quotes v = v" by (auto simp: strip_quotes_def)
  with t show ?thesis by (simp add: clean_cell_def)
qed

lemma map_clean_cell_zip:
  "length vs = length ks \<Longrightarrow> \<forall>v\<in>set vs. QUOTE \<notin> set v \<and> trimmed v \<Longrightarrow>
   zip ks (map (\<lambda>j. clean_cell (cell_at vs j)) [0..<length ks]) = zip ks vs"
proof -
  assume len: "length vs = length ks" and vs: "\<forall>v\<in>set vs. QUOTE \<notin> set v \<and> trimmed v"
  have "map (\<lambda>j. clean_cell (cell_at vs j)) [0..<length ks] = vs"
  proof (rule nth_equalityI)
    fix j assume "j < length (map (\<lambda>j. clean_cell (cell_at vs j)) [0..<length ks])"
    then have j: "j < length vs" using len by simp
    then have "vs ! j \<in> set vs" by simp
    with vs j show "map (\<lambda>j. clean_cell (cell_at vs j)) [0..<length ks] ! j = vs ! j"
      using len by (simp add: cell_at_def clean_cell_plain)
  qed (simp add: len)
  then show ?thesis by simp
qed

lemma js_join_Cons: "js_join sep (x # xs) = x @ (if xs = [] then [] else sep @ js_join sep xs)"
  by (cases xs) simp_all

lemma clean_cell_trimmed [simp]: "trimmed (clean_cell s)"
  by (simp add: clean_cell_def)

lemma clean_cell_Nil [simp]: "clean_cell [] = []"
  by (simp add: clean_cell_def strip_quotes_def js_trim_def js_trim_start_def js_trim_end_def)

lemma set_obj_set: "set (obj_set ob k v) \<subseteq> set ob \<union> {(k, v)}"
proof -
  have "set (map (\<lambda>(k', v'). if k' = k then (k', v) else (k', v')) ob) \<subseteq> set ob \<union> {(k, v)}"
    by (induction ob) auto
  then show ?thesis by (auto simp: obj_set_def)
qed

lemma build_record_trimmed:
  "\<forall>p\<in>set ob. trimmed (snd p) \<Longrightarrow> \<forall>p\<in>set (build_record ob i ks parts). trimmed (snd p)"
proof (induction ob i ks parts rule: build_record.induct)
  case (2 ob i k ks parts)
  have "\<forall>p\<in>set (obj_set ob k (clean_cell (cell_at parts i))). trimmed (snd p)"
    using "2.prems" set_obj_set[of ob k "clean_cell (cell_at parts i)"] by auto
  then show ?case using "2.IH" by simp
qed simp

lemma parseCSV_length:
  "parseCSV txt = Inr rs \<Longrightarrow> length rs = length (nonblank_lines txt) - 1"
  by (auto simp: parseCSV_def split: list.splits)

lemma parseCSV_keys_trimmed:
  "parseCSV txt = Inr rs \<Longrightarrow> r \<in> set rs \<Longrightarrow> k \<in> fst ` set r \<Longrightarrow> trimmed k"
proof -
  assume p: "parseCSV txt = Inr rs" and r: "r \<in> set rs" and k: "k \<in> fst ` set r"
  from p obtain l0 ls where "rs = map (parse_row (parse_header l0)) ls"
    by (auto simp: parseCSV_def split: list.splits)
  with r obtain l where "r = parse_row (parse_header l0) l" by auto
  with k have "k \<in> set (parse_header l0)"
    by (auto simp: parse_row_def build_record_keys)
  then show "trimmed k" by (auto simp: parse_header_def)
qed

subsection \<open>Properties of the parser\<close>

text \<open>
  C4. A text of lines joined by CRLF, none of which contains a line feed, parses to
  exactly one record per non-blank line after the first non-blank line (the header).
\<close>

theorem parseCSV_record_count:
  assumes "ls \<noteq> []" and "\<forall>l\<in>set ls. LF \<notin> set l" and "\<exists>l\<in>set ls. js_trim l \<noteq> []"
  shows "\<exists>rs. parseCSV (js_join [CR, LF] ls) = Inr rs
           \<and> length rs = length (filter (\<lambda>l. js_trim l \<noteq> []) ls) - 1"
proof -
  from assms(3) obtain l0 ls' where f: "filter (\<lambda>l. js_trim l \<noteq> []) ls = l0 # ls'"
    by (cases "filter (\<lambda>l. js_trim l \<noteq> []) ls") (auto simp: filter_empty_conv)
  with assms(1,2) show ?thesis
    by (simp add: parseCSV_def nonblank_lines_join_CRLF)
qed

theorem parseCSV_record_count_witness:
  "\<exists>rs. parseCSV (js_join [CR, LF] [''a,b'', '''', ''1,2'', ''3,4'']) = Inr rs \<and> length rs = 2"
  using parseCSV_record_count[of "[''a,b'', '''', ''1,2'', ''3,4'']"]
  by (simp add: js_trim_def js_trim_start_def js_trim_end_def js_ws_def numeral_2_eq_2)

text \<open>
  C5. \<open>parseCSV\<close> fails (with the TypeError of reading \<open>lines[0]\<close> when it is
  undefined) exactly when the text consists of white space only, the empty text
  included; on every other text it returns records.
\<close>

theorem parseCSV_TypeError_iff:
  "parseCSV txt = Inl TypeError \<longleftrightarrow> (\<forall>c\<in>set txt. js_ws c)"
  by (auto simp: parseCSV_def simp flip: nonblank_lines_Nil_iff split: list.split)

theorem parseCSV_TypeError_iff_witness:
  "parseCSV '' '' = Inl TypeError \<and> parseCSV '' a'' \<noteq> Inl TypeError"
  using parseCSV_TypeError_iff[of "'' ''"] parseCSV_TypeError_iff[of "'' a''"]
  by (simp add: js_ws_def)

text \<open>
  C14. A data line of double-quoted fields separated by commas parses field by field,
  a comma inside the quotes included, when no value contains a double quote and no
  value has white space at either end.
\<close>

theorem parse_row_quoted:
  assumes "length vs = length ks" and "vs \<noteq> []" and "distinct ks"
    and "''__proto__'' \<notin> set ks" and "\<forall>v\<in>set vs. QUOTE \<notin> set v \<and> trimmed v"
  shows "parse_row ks (js_join [COMMA] (map (\<lambda>v. QUOTE # v @ [QUOTE]) vs)) = zip ks vs"
proof -
  let ?line = "js_join [COMMA] (map (\<lambda>v. QUOTE # v @ [QUOTE]) vs)"
  from assms(2) have "hd ?line = QUOTE \<and> ?line \<noteq> []"
    by (cases vs) (auto simp: js_join_Cons)
  then have "strip_row_prefix ?line = ?line"
    by (intro strip_row_prefix_no_digit) (simp add: js_simps)
  moreover have "split_fields ?line = vs"
    using assms(2,5) by (simp add: split_fields_def split_fields_quoted_join)
  ultimately show ?thesis
    using assms by (simp add: parse_row_def build_record_append map_clean_cell_zip)
qed

theorem parse_row_quoted_witness:
  "parse_row [''a'', ''b''] (js_join [COMMA] (map (\<lambda>v. QUOTE # v @ [QUOTE]) [''x,y'', ''z'']))
   = [(''a'', ''x,y''), (''b'', ''z'')]"
  using parse_row_quoted[of "[''x,y'', ''z'']" "[''a'', ''b'']"]
  by (simp add: trimmed_def js_ws_def)

text \<open>
  C15. A row-index prefix (one or more decimal digits and a pipe) is ignored: the
  prefixed line parses as the line without it, unless that line carries a prefix of
  its own.
\<close>

theorem parse_row_prefix:
  assumes "ds \<noteq> []" and "\<forall>c\<in>set ds. is_digit c" and "strip_row_prefix l = l"
  shows "parse_row h (ds @ PIPE # l) = parse_row h l"
  using assms by (simp add: parse_row_def strip_row_prefix_digits)

theorem parse_row_prefix_witness:
  "parse_row [''a'', ''b''] (''5'' @ PIPE # ''val1,val2'') = parse_row [''a'', ''b''] ''val1,val2''
   \<and> parse_row [''a'', ''b''] ''val1,val2'' = [(''a'', ''val1''), (''b'', ''val2'')]"
proof -
  have "strip_row_prefix ''val1,val2'' = ''val1,val2''"
    by (simp add: strip_row_prefix_def is_digit_def)
  then show ?thesis
    using parse_row_prefix[of "''5''" "''val1,val2''" "[''a'', ''b'']"]
    by (simp add: is_digit_def) code_simp
qed

text \<open>
  C16. On a line with an even number of double quotes the header split (a comma
  splits when an even number of quotes follows it) and the data-line scan (a comma
  splits outside quotes) cut the line at the same commas: the header's pieces with
  their quotes removed are the data line's fields.
\<close>

theorem split_header_scan:
  "even (count_quotes l) \<Longrightarrow>
   map (filter (\<lambda>c. c \<noteq> QUOTE)) (split_header l) = split_fields l"
  using split_header_aux_scan[of l False "[]"] by (simp add: split_header_def split_fields_def)

theorem split_header_scan_witness:
  "even (count_quotes (QUOTE # ''a,b'' @ QUOTE # '',c''))
   \<and> split_fields (QUOTE # ''a,b'' @ QUOTE # '',c'') = [''a,b'', ''c'']"
  using split_header_scan[of "QUOTE # ''a,b'' @ QUOTE # '',c''"]
  by (simp add: count_quotes_def) code_simp

text \<open>
  C17. In a record parsed against a header of distinct keys, the key at position i
  holds the i-th field of the line, quote-stripped and trimmed, or the empty string
  when the line has fewer than i + 1 fields.
\<close>

theorem parse_row_cell:
  assumes "distinct h" and "i < length h" and "h ! i \<noteq> ''__proto__''"
  shows "obj_get (parse_row h l) (h ! i) =
           Some (let parts = split_fields (strip_row_prefix l)
                 in if i < length parts then clean_cell (parts ! i) else [])"
  using build_record_nth[OF assms, of "[]" 0] by (simp add: parse_row_def cell_at_def Let_def)

theorem parse_row_cell_witness:
  "obj_get (parse_row [''a'', ''b'', ''c''] (''1, '' @ QUOTE # ''x'' @ [QUOTE])) ''c'' = Some []
   \<and> obj_get (parse_row [''a'', ''b'', ''c''] (''1, '' @ QUOTE # ''x'' @ [QUOTE])) ''b'' = Some ''x''"
  using parse_row_cell[of "[''a'', ''b'', ''c'']" 2 "''1, '' @ QUOTE # ''x'' @ [QUOTE]"]
    parse_row_cell[of "[''a'', ''b'', ''c'']" 1 "''1, '' @ QUOTE # ''x'' @ [QUOTE]"]
  by simp code_simp

text \<open>
  C18. Every record \<open>parseCSV\<close> returns is a well-formed object whose keys are the
  header's keys (but \<open>__proto__\<close>, which the assignment ignores), and every value
  in it is trimmed.
\<close>

theorem parseCSV_records_wf:
  assumes "parseCSV txt = Inr rs" and "r \<in> set rs"
  shows "obj_wf r \<and> set (map fst r) = set (parse_header (hd (nonblank_lines txt))) - {''__proto__''}
         \<and> (\<forall>p\<in>set r. trimmed (snd p))"
proof -
  from assms(1) obtain l0 ls where nb: "nonblank_lines txt = l0 # ls"
    and rs: "rs = map (parse_row (parse_header l0)) ls"
    by (auto simp: parseCSV_def split: list.splits)
  with assms(2) obtain l where r: "r = parse_row (parse_header l0) l" by auto
  have "obj_wf ([] :: jsobj)" by (simp add: obj_wf_def)
  then show ?thesis
    using nb r build_record_trimmed[of "[]"]
    by (simp add: parse_row_def build_record_wf build_record_keys)
qed

theorem parseCSV_records_wf_witness:
  "parseCSV (''k,j'' @ [LF] @ ''v'') = Inr [[(''k'', ''v''), (''j'', '''')]]
   \<and> obj_wf [(''k'', ''v''), (''j'', '''')]
   \<and> set (map fst [(''k'', ''v''), (''j'', '''')]) = set (parse_header ''k,j'') - {''__proto__''}"
proof -
  have p: "parseCSV (''k,j'' @ [LF] @ ''v'') = Inr [[(''k'', ''v''), (''j'', '''')]]"
    by code_simp
  have "nonblank_lines (''k,j'' @ [LF] @ ''v'') = [''k,j'', ''v'']"
    by code_simp
  then show ?thesis
    using parseCSV_records_wf[OF p, of "[(''k'', ''v''), (''j'', '''')]"] p by simp
qed

end
