(* ===== verification/Export.thy ===== *)
theory Export
  imports Table CsvParser
begin

text \<open>
  \<open>exportToCSV\<close> (\<open>src/script.js\<close> lines 259 to 280). It filters
  \<open>tableData\<close> again with the current search and filter, but the search looks at
  every value of the row (\<open>Object.values(row)\<close>), not at the seven table columns
  as \<open>renderTable\<close> does. With no matching row it returns without a download
  (\<open>None\<close>); otherwise the CSV text is the keys of the first matching row joined by
  commas, then one line per row with every value wrapped in double quotes and inner
  double quotes doubled, the lines separated (not terminated) by CRLF. The Blob, the
  object URL and the click on the anchor are I/O and are not modelled: the model's
  result is the text handed to the Blob.
\<close>

definition export_matches :: "table_state \<Rightarrow> jsobj \<Rightarrow> bool" where
  "export_matches st row =
     (let rating = obj_get row key_rating
      in if currentFilter st \<noteq> [] \<and> rating \<noteq> Some (currentFilter st) then False
         else if currentSearch st \<noteq> []
         then list_ex (\<lambda>v. js_includes (js_lower v) (currentSearch st)) (obj_values row)
         else True)"

definition escape_quotes :: "jsstr \<Rightarrow> jsstr" where
  "escape_quotes v = concat (map (\<lambda>c. if c = QUOTE then [QUOTE, QUOTE] else [c]) v)"

definition csv_cell :: "jsstr \<Rightarrow> jsstr" where
  "csv_cell v = QUOTE # escape_quotes v @ [QUOTE]"

definition csv_line :: "jsstr list \<Rightarrow> jsobj \<Rightarrow> jsstr" where
  "csv_line header row = js_join [COMMA] (map (\<lambda>k. csv_cell (obj_get_or_empty row k)) header)"

definition csv_of_rows :: "jsobj list \<Rightarrow> jsstr" where
  "csv_of_rows rs =
     (let header = obj_keys (hd rs)
      in js_join [CR, LF] (js_join [COMMA] header # map (csv_line header) rs))"

definition exportToCSV :: "table_state \<Rightarrow> jsstr option" where
  "exportToCSV st =
     (let filtered = filter (export_matches st) (tableData st)
      in if filtered = [] then None else Some (csv_of_rows filtered))"

subsection \<open>Scanning exported lines\<close>

lemma escape_quotes_Cons [simp]:
  "escape_quotes (c # v) = (if c = QUOTE then [QUOTE, QUOTE] else [c]) @ escape_quotes v"
  by (simp add: escape_quotes_def)

lemma escape_quotes_Nil [simp]: "escape_quotes [] = []"
  by (simp add: escape_quotes_def)

lemma scan_fields_escaped:
  "scan_fields True cur (escape_quotes v @ QUOTE # rest)
   = scan_fields False (cur @ filter (\<lambda>c. c \<noteq> QUOTE) v) rest"
  by (induction v arbitrary: cur) auto

lemma scan_fields_csv_join:
  "vs \<noteq> [] \<Longrightarrow>
   scan_fields False [] (js_join [COMMA] (map csv_cell vs)) = map (filter (\<lambda>c. c \<noteq> QUOTE)) vs"
proof (induction vs rule: induct_list012)
  case (2 x)
  then show ?case using scan_fields_escaped[of "[]" x "[]"] by (simp add: csv_cell_def)
next
  case (3 x y zs)
  then show ?case using scan_fields_escaped[of "[]" x] by (simp add: csv_cell_def)
qed simp

lemma split_header_aux_plain:
  "QUOTE \<notin> set s \<Longrightarrow> COMMA \<notin> set k \<Longrightarrow> split_header_aux cur (k @ COMMA # s) = (cur @ k) # split_header_aux [] s"
proof (induction k arbitrary: cur)
  case Nil
  have "count_quotes s = 0" using Nil.prems(1) by (induction s) auto
  then show ?case by simp
qed auto

lemma split_header_aux_last: "COMMA \<notin> set k \<Longrightarrow> split_header_aux cur k = [cur @ k]"
  by (induction k arbitrary: cur) auto

lemma set_js_join: "set (js_join sep xs) \<subseteq> set sep \<union> \<Union> (set ` set xs)"
  by (induction sep xs rule: js_join.induct) auto

lemma split_header_join:
  "ks \<noteq> [] \<Longrightarrow> \<forall>k\<in>set ks. COMMA \<notin> set k \<and> QUOTE \<notin> set k \<Longrightarrow>
   split_header (js_join [COMMA] ks) = ks"
proof (induction ks rule: induct_list012)
  case (3 x y zs)
  have "QUOTE \<notin> set (js_join [COMMA] (y # zs))"
    using 3(4) set_js_join[of "[COMMA]" "y # zs"] by auto
  with 3 show ?case by (simp add: split_header_def split_header_aux_plain)
qed (simp_all add: split_header_def split_header_aux_last)

subsection \<open>Parsing an export\<close>

lemma map_obj_get_keys:
  "distinct (map fst r) \<Longrightarrow> map (obj_get_or_empty r) (map fst r) = map snd r"
proof (induction r)
  case (Cons p r)
  obtain k v where p: "p = (k, v)" by fastforce
  have "map (obj_get_or_empty (p # r)) (map fst r) = map (obj_get_or_empty r) (map fst r)"
    using Cons.prems p by (auto simp: obj_get_or_empty_def obj_get_def)
  with Cons p show ?case by (simp add: obj_get_or_empty_def obj_get_def)
qed simp

lemma zip_map_fst_snd: "zip (map fst r) (map (\<lambda>p. f (snd p)) r) = map (\<lambda>(k, v). (k, f v)) r"
  by (induction r) auto

lemma csv_line_eq:
  assumes "distinct (map fst r)"
  shows "csv_line (map fst r) r = js_join [COMMA] (map csv_cell (map snd r))"
proof -
  have "map (\<lambda>k. csv_cell (obj_get_or_empty r k)) (map fst r)
        = map csv_cell (map (obj_get_or_empty r) (map fst r))"
    by simp
  also have "\<dots> = map csv_cell (map snd r)"
    using assms by (simp only: map_obj_get_keys)
  finally show ?thesis unfolding csv_line_def by (rule arg_cong)
qed

lemma hd_js_join_csv: "vs \<noteq> [] \<Longrightarrow> js_join [COMMA] (map csv_cell vs) \<noteq> [] \<and> hd (js_join [COMMA] (map csv_cell vs)) = QUOTE"
  by (cases vs) (auto simp: js_join_Cons csv_cell_def)

lemma set_csv_cell: "set (csv_cell v) \<subseteq> insert QUOTE (set v)"
  by (induction v) (auto simp: csv_cell_def)

lemma parse_row_csv_line:
  assumes "distinct (map fst r)" and "r \<noteq> []" and "''__proto__'' \<notin> set (map fst r)"
    and "\<forall>p\<in>set r. trimmed (filter (\<lambda>c. c \<noteq> QUOTE) (snd p))"
  shows "parse_row (map fst r) (csv_line (map fst r) r)
         = map (\<lambda>(k, v). (k, filter (\<lambda>c. c \<noteq> QUOTE) v)) r"
proof -
  let ?vs = "map snd r" and ?line = "js_join [COMMA] (map csv_cell (map snd r))"
  have ne: "?vs \<noteq> []" using assms(2) by simp
  have "strip_row_prefix ?line = ?line"
    using hd_js_join_csv[OF ne] by (intro strip_row_prefix_no_digit) (simp add: js_simps)
  moreover have parts: "split_fields ?line = map (filter (\<lambda>c. c \<noteq> QUOTE)) ?vs"
    using scan_fields_csv_join[OF ne] by (simp only: split_fields_def)
  moreover have clean: "\<forall>v\<in>set (map (filter (\<lambda>c. c \<noteq> QUOTE)) ?vs). QUOTE \<notin> set v \<and> trimmed v"
    using assms(4) by auto
  ultimately have "parse_row (map fst r) ?line
      = build_record [] 0 (map fst r) (map (filter (\<lambda>c. c \<noteq> QUOTE)) ?vs)"
    by (simp only: parse_row_def)
  also have "\<dots> = zip (map fst r) (map (\<lambda>j. clean_cell (cell_at (map (filter (\<lambda>c. c \<noteq> QUOTE)) ?vs) j))
                       [0..<length (map fst r)])"
    using build_record_append[where ks = "map fst r" and ob = "[]" and i = 0
        and parts = "map (filter (\<lambda>c. c \<noteq> QUOTE)) ?vs"] assms(1,3) by simp
  also have "\<dots> = zip (map fst r) (map (filter (\<lambda>c. c \<noteq> QUOTE)) ?vs)"
    using clean by (intro map_clean_cell_zip) simp_all
  also have "\<dots> = map (\<lambda>(k, v). (k, filter (\<lambda>c. c \<noteq> QUOTE) v)) r"
    by (induction r) auto
  finally show ?thesis using assms(1) by (simp only: csv_line_eq)
qed

lemma hd_js_join_Cons: "k \<noteq> [] \<Longrightarrow> js_join sep (k # ks) \<noteq> [] \<and> hd (js_join sep (k # ks)) = hd k"
  by (simp add: js_join_Cons)

lemma js_trim_nonblank: "l \<noteq> [] \<Longrightarrow> \<not> js_ws (hd l) \<Longrightarrow> js_trim l \<noteq> []"
  by (simp add: js_trim_Nil_iff) (metis hd_in_set)

lemma parse_header_join:
  assumes "ks \<noteq> []" and "\<forall>k\<in>set ks. k \<noteq> [] \<and> trimmed k \<and> COMMA \<notin> set k \<and> QUOTE \<notin> set k"
    and "\<not> is_digit (hd (hd ks))"
  shows "parse_header (js_join [COMMA] ks) = ks"
proof -
  let ?l = "js_join [COMMA] ks"
  obtain k ks' where ks: "ks = k # ks'" using assms(1) by (cases ks) auto
  with assms(2) have "k \<noteq> []" by simp
  with ks have "?l \<noteq> [] \<and> hd ?l = hd k" by (simp add: hd_js_join_Cons)
  with assms(3) ks have "strip_row_prefix ?l = ?l"
    by (intro strip_row_prefix_no_digit) simp
  moreover have "split_header ?l = ks"
    using assms(1,2) by (intro split_header_join) auto
  moreover have "map js_trim (map clean_cell ks) = ks"
    using assms(2) by (simp add: map_idI clean_cell_plain)
  ultimately show ?thesis by (simp add: parse_header_def)
qed

lemma LF_notin_csv_line:
  "\<forall>p\<in>set r. LF \<notin> set (snd p) \<Longrightarrow> LF \<notin> set (csv_line ks r)"
proof
  assume vals: "\<forall>p\<in>set r. LF \<notin> set (snd p)" and lf: "LF \<in> set (csv_line ks r)"
  have "\<forall>k. LF \<notin> set (obj_get_or_empty r k)"
  proof
    fix k
    show "LF \<notin> set (obj_get_or_empty r k)"
    proof (cases "map_of r k")
      case (Some v)
      then have "(k, v) \<in> set r" by (rule map_of_SomeD)
      with vals Some show ?thesis by (auto simp: obj_get_or_empty_def obj_get_def)
    qed (simp add: obj_get_or_empty_def obj_get_def)
  qed
  then have "\<forall>k. LF \<notin> set (csv_cell (obj_get_or_empty r k))"
    using set_csv_cell by fastforce
  then show False
    using lf set_js_join[of "[COMMA]" "map (\<lambda>k. csv_cell (obj_get_or_empty r k)) ks"]
    by (auto simp: csv_line_def)
qed

lemma csv_line_nonblank: "ks \<noteq> [] \<Longrightarrow> js_trim (csv_line ks r) \<noteq> []"
proof -
  assume "ks \<noteq> []"
  then obtain k ks' where "ks = k # ks'" by (cases ks) auto
  then have "csv_line ks r \<noteq> [] \<and> hd (csv_line ks r) = QUOTE"
    by (simp add: csv_line_def hd_js_join_Cons csv_cell_def)
  then show ?thesis by (simp add: js_trim_nonblank js_simps)
qed

subsection \<open>Properties of the export\<close>

text \<open>
  C1. Exporting rows and parsing the export gives the rows back, every value with its
  double quotes removed: the parser drops every double quote it scans, the doubled
  quotes of the export included, so quote-free values make the round trip exactly. It
  holds when all rows have the keys of the first in the same order, the keys are
  non-empty, trimmed, not array indices, free of commas, double quotes and line feeds,
  the first key does not start with a digit, and the values have no line feed and are
  trimmed once their quotes are removed.
\<close>

theorem export_parse_roundtrip:
  assumes ne: "rs \<noteq> []" and same: "\<forall>r\<in>set rs. map fst r = map fst (hd rs)"
    and dist: "distinct (map fst (hd rs))" and kne: "map fst (hd rs) \<noteq> []"
    and keys: "\<forall>k\<in>set (map fst (hd rs)). k \<noteq> [] \<and> trimmed k \<and> \<not> is_array_index k
                 \<and> k \<noteq> ''__proto__'' \<and> COMMA \<notin> set k \<and> QUOTE \<notin> set k \<and> LF \<notin> set k"
    and first: "\<not> is_digit (hd (hd (map fst (hd rs))))"
    and vals: "\<forall>r\<in>set rs. \<forall>p\<in>set r. LF \<notin> set (snd p) \<and> trimmed (filter (\<lambda>c. c \<noteq> QUOTE) (snd p))"
  shows "parseCSV (csv_of_rows rs) = Inr (map (map (\<lambda>(k, v). (k, filter (\<lambda>c. c \<noteq> QUOTE) v))) rs)"
proof -
  let ?K = "map fst (hd rs)"
  let ?hl = "js_join [COMMA] ?K"
  let ?lines = "?hl # map (csv_line ?K) rs"
  have hk: "obj_keys (hd rs) = ?K"
    using keys by (intro obj_keys_no_index) auto
  have lf: "\<forall>l\<in>set ?lines. LF \<notin> set l"
  proof -
    have "LF \<notin> set ?hl"
      using keys set_js_join[of "[COMMA]" ?K] by auto
    moreover have "\<forall>r\<in>set rs. LF \<notin> set (csv_line ?K r)"
      using vals LF_notin_csv_line by blast
    ultimately show ?thesis by auto
  qed
  have nb: "filter (\<lambda>l. js_trim l \<noteq> []) ?lines = ?lines"
  proof -
    obtain k ks' where ks: "?K = k # ks'" using kne by (cases ?K) auto
    then have "k \<noteq> [] \<and> trimmed k" using keys by (metis list.set_intros(1))
    then have "?hl \<noteq> [] \<and> \<not> js_ws (hd ?hl)"
      using ks hd_js_join_Cons[of k "[COMMA]" ks'] by (auto simp: trimmed_def)
    then have "js_trim ?hl \<noteq> []" by (simp add: js_trim_nonblank)
    then show ?thesis using kne by (simp add: csv_line_nonblank)
  qed
  have ph: "parse_header ?hl = ?K"
    using kne keys first by (intro parse_header_join) auto
  have rows: "map (parse_row ?K) (map (csv_line ?K) rs)
              = map (map (\<lambda>(k, v). (k, filter (\<lambda>c. c \<noteq> QUOTE) v))) rs"
  proof (rule nth_equalityI)
    fix i assume "i < length (map (parse_row ?K) (map (csv_line ?K) rs))"
    then have i: "i < length rs" by simp
    let ?r = "rs ! i"
    have r: "?r \<in> set rs" using i by simp
    with same have k: "map fst ?r = ?K" by blast
    have rne: "?r \<noteq> []" using k kne by auto
    have "distinct (map fst ?r)" and "''__proto__'' \<notin> set (map fst ?r)"
      using dist keys k by auto
    moreover have "\<forall>p\<in>set ?r. trimmed (filter (\<lambda>c. c \<noteq> QUOTE) (snd p))"
      using vals r by blast
    ultimately have "parse_row (map fst ?r) (csv_line (map fst ?r) ?r)
          = map (\<lambda>(k, v). (k, filter (\<lambda>c. c \<noteq> QUOTE) v)) ?r"
      using rne by (intro parse_row_csv_line)
    with i k show "map (parse_row ?K) (map (csv_line ?K) rs) ! i
                   = map (map (\<lambda>(k, v). (k, filter (\<lambda>c. c \<noteq> QUOTE) v))) rs ! i"
      by simp
  qed simp
  have "csv_of_rows rs = js_join [CR, LF] ?lines"
    by (simp add: csv_of_rows_def hk Let_def)
  then have "nonblank_lines (csv_of_rows rs) = filter (\<lambda>l. js_trim l \<noteq> []) ?lines"
    using nonblank_lines_join_CRLF[of ?lines] lf by simp
  then have "nonblank_lines (csv_of_rows rs) = ?lines"
    using nb by simp
  with ph rows show ?thesis by (simp add: parseCSV_def)
qed

theorem export_parse_roundtrip_witness:
  "parseCSV (csv_of_rows [[(''k'', ''a,b''), (''j'', ''x'' @ QUOTE # ''y'')]])
   = Inr [[(''k'', ''a,b''), (''j'', ''xy'')]]"
proof -
  have "parseCSV (csv_of_rows [[(''k'', ''a,b''), (''j'', ''x'' @ QUOTE # ''y'')]])
        = Inr (map (map (\<lambda>(k, v). (k, filter (\<lambda>c. c \<noteq> QUOTE) v)))
                   [[(''k'', ''a,b''), (''j'', ''x'' @ QUOTE # ''y'')]])"
    by (rule export_parse_roundtrip) (simp_all add: trimmed_def js_ws_def is_digit_def
        is_array_index_def)
  then show ?thesis by simp
qed

lemma js_includes_lower_Nil: "t \<noteq> [] \<Longrightarrow> \<not> js_includes (js_lower []) t"
  by (simp add: js_lower_def)

text \<open>
  C11. The export and the table filter a row alike when every key of the row is one
  of the seven table columns: the export's search over \<open>Object.values(row)\<close> then
  sees the same values as the table's search over the columns (a column the row lacks
  reads as the empty string, which contains no non-empty search term).
\<close>

theorem export_matches_table:
  assumes "set (map fst row) \<subseteq> col_key ` set tableColumns"
  shows "export_matches st row = row_matches st row"
proof -
  let ?P = "\<lambda>v. js_includes (js_lower v) (currentSearch st)"
  have "currentSearch st \<noteq> [] \<Longrightarrow>
        (\<exists>k\<in>set (map fst row). ?P (obj_get_or_empty row k))
        \<longleftrightarrow> (\<exists>col\<in>set tableColumns. ?P (obj_get_or_empty row (col_key col)))"
  proof
    assume "\<exists>k\<in>set (map fst row). ?P (obj_get_or_empty row k)"
    with assms show "\<exists>col\<in>set tableColumns. ?P (obj_get_or_empty row (col_key col))" by blast
  next
    assume s: "currentSearch st \<noteq> []"
      and "\<exists>col\<in>set tableColumns. ?P (obj_get_or_empty row (col_key col))"
    then obtain col :: column where "?P (obj_get_or_empty row (col_key col))" by blast
    with s show "\<exists>k\<in>set (map fst row). ?P (obj_get_or_empty row k)"
      by (metis js_includes_lower_Nil obj_get_or_empty_absent)
  qed
  moreover have "key_rating = col_key (tableColumns ! 3)"
    by (simp add: tableColumns_def)
  ultimately show ?thesis
    by (simp add: export_matches_def row_matches_def obj_values_def list_ex_iff Let_def)
qed

theorem export_matches_table_witness:
  "export_matches (initial_table\<lparr>currentSearch := ''ana''\<rparr>) [(key_name, ''Ana'')]
   = row_matches (initial_table\<lparr>currentSearch := ''ana''\<rparr>) [(key_name, ''Ana'')]
   \<and> row_matches (initial_table\<lparr>currentSearch := ''ana''\<rparr>) [(key_name, ''Ana'')]"
proof -
  have "set (map fst [(key_name, ''Ana'')]) \<subseteq> col_key ` set tableColumns"
    by (simp add: tableColumns_def)
  then have "export_matches (initial_table\<lparr>currentSearch := ''ana''\<rparr>) [(key_name, ''Ana'')]
        = row_matches (initial_table\<lparr>currentSearch := ''ana''\<rparr>) [(key_name, ''Ana'')]"
    by (rule export_matches_table)
  moreover have "row_matches (initial_table\<lparr>currentSearch := ''ana''\<rparr>) [(key_name, ''Ana'')]"
    unfolding row_matches_def initial_table_def tableColumns_def by code_simp
  ultimately show ?thesis by simp
qed

text \<open>Where a row has a key outside the table's columns the two filters part: a term
  found only in that value selects the row for the export but hides it in the table.\<close>

lemma export_table_filters_differ:
  "export_matches (initial_table\<lparr>currentSearch := ''foo''\<rparr>) [(''extra'', ''foo'')]
   \<and> \<not> row_matches (initial_table\<lparr>currentSearch := ''foo''\<rparr>) [(''extra'', ''foo'')]"
  unfolding export_matches_def row_matches_def initial_table_def tableColumns_def obj_values_def
    obj_keys_def
  by code_simp

end
