(* ===== verification/Dashboard.thy ===== *)
theory Dashboard
  imports Table
begin

text \<open>
  The summary statistics of \<open>renderDashboard\<close> (\<open>src/script.js\<close> lines 67 to 109)
  and the three chart helpers it calls: \<open>renderAgeDistribution\<close> (lines 121 to 135),
  \<open>renderExpectationsChart\<close> (lines 137 to 150) and \<open>renderBarChart\<close> (lines 152
  to 168). Each figure the page shows is a value of the model; the DOM writes that
  show it are not modelled. Numbers the program computes in floating point are
  exact rationals here: every such value is a quotient of two integers below
  \<open>2^32\<close> (an array length bounds both), and the displayed digits
  (\<open>toFixed\<close>) are not modelled. \<open>Math.round(100 * s / n)\<close> is modelled exactly as
  \<open>(200 s + n) div (2 n)\<close>: the quotient \<open>100 s / n\<close> lies at least \<open>1 / (2 n)\<close>
  from every half-integer it is not equal to, far more than the rounding error of a
  double below 128, so rounding the double and rounding the rational agree.
\<close>

subsection \<open>Scores\<close>

text \<open>The filter \<open>n >= 1 && n <= 5\<close> compares \<open>null\<close> as the number 0
  (ToNumber(null) is +0), so a missing score never passes it; the values that pass
  are numbers.\<close>

definition null_as_number :: "nat option \<Rightarrow> nat" where
  "null_as_number v = (case v of None \<Rightarrow> 0 | Some n \<Rightarrow> n)"

definition score_list :: "jsstr \<Rightarrow> jsobj list \<Rightarrow> nat list" where
  "score_list k data =
     filter (\<lambda>n. 1 \<le> n \<and> n \<le> 5) (map (\<lambda>d. null_as_number (getNumber (obj_get d k))) data)"

text \<open>\<open>xs.length ? (sum / xs.length).toFixed(2) : '0'\<close>: \<open>None\<close> is the
  \<open>'0'\<close> branch.\<close>

definition average :: "nat list \<Rightarrow> rat option" where
  "average xs = (if xs = [] then None else Some (of_nat (sum_list xs) / of_nat (length xs)))"

definition satisfied_count :: "nat list \<Rightarrow> nat" where
  "satisfied_count rs = length (filter (\<lambda>n. 4 \<le> n) rs)"

definition satisfactionRate :: "nat list \<Rightarrow> nat" where
  "satisfactionRate rs =
     (if rs = [] then 0 else (200 * satisfied_count rs + length rs) div (2 * length rs))"

subsection \<open>Survey period\<close>

text \<open>\<open>getDate(d['Carimbo de data/hora'])\<close> calls \<open>val.match\<close>, which throws a
  \<open>TypeError\<close> on a record without that column; \<open>filter(Boolean)\<close> keeps every
  Date object (an invalid date is an object, hence truthy) and drops the
  \<open>null\<close>s; \<open>sort((a, b) => a - b)\<close> orders by time value.\<close>

definition survey_dates :: "js_env \<Rightarrow> jsobj list \<Rightarrow> js_error + ymd list" where
  "survey_dates env data =
     (if list_all (\<lambda>d. obj_get d key_timestamp \<noteq> None) data
      then Inr (sort_by (\<lambda>a b. num_sub_sign (date_value env a) (date_value env b))
                  (List.map_filter (\<lambda>d. getDate (obj_get_or_empty d key_timestamp)) data))
      else Inl TypeError)"

text \<open>\<open>periodInfo\<close> shows the first and the last date, \<open>periodDetail\<close> the
  number of dates (\<open>`${dates.length} dias de respostas`\<close>).\<close>

definition period_of :: "ymd list \<Rightarrow> (ymd \<times> ymd \<times> nat) option" where
  "period_of dates = (if dates = [] then None else Some (hd dates, last dates, length dates))"

subsection \<open>Ages\<close>

text \<open>\<open>filter(Number.isFinite)\<close> drops the \<open>null\<close>s of \<open>getNumber\<close>.\<close>

definition ages_of :: "jsobj list \<Rightarrow> nat list" where
  "ages_of data = List.map_filter (\<lambda>d. getNumber (obj_get d key_age)) data"

text \<open>Average, minimum and maximum (\<open>ageInfo\<close>), shown only when there is an age.\<close>

definition age_info :: "nat list \<Rightarrow> (rat \<times> nat \<times> nat) option" where
  "age_info ages =
     (if ages = [] then None
      else Some (of_nat (sum_list ages) / of_nat (length ages), Min (set ages), Max (set ages)))"

definition age_bucket :: "nat \<Rightarrow> jsstr" where
  "age_bucket age =
     (if age < 20 then ''-19'' else if age < 30 then ''20-29'' else if age < 40 then ''30-39''
      else if age < 50 then ''40-49'' else if age < 60 then ''50-59'' else ''60+'')"

text \<open>\<open>dist[faixa] = (dist[faixa] || 0) + 1\<close> on an object whose keys are no array
  indices, so \<open>Object.entries\<close> lists them in creation order.\<close>

fun count_incr :: "(jsstr \<times> nat) list \<Rightarrow> jsstr \<Rightarrow> (jsstr \<times> nat) list" where
  "count_incr [] k = [(k, 1)]"
| "count_incr ((k', n) # d) k = (if k' = k then (k', n + 1) # d else (k', n) # count_incr d k)"

definition renderAgeDistribution :: "nat list \<Rightarrow> (jsstr \<times> nat) list" where
  "renderAgeDistribution ages = foldl (\<lambda>dist age. count_incr dist (age_bucket age)) [] ages"

subsection \<open>Expectations\<close>

text \<open>Line 100 reads the column \<open>'4. O atendimento ... expectativas? '\<close>, with a
  trailing space.\<close>

definition expectations_key :: jsstr where
  "expectations_key = key_expectations @ '' ''"

definition answer_no :: jsstr where
  "answer_no = ''n'' @ [CHR 0xE3] @ ''o''"

definition expectation_counts :: "jsobj list \<Rightarrow> nat \<times> nat \<times> nat" where
  "expectation_counts data =
     (let es = map (\<lambda>d. js_lower (obj_get_or_empty d expectations_key)) data
      in (length (filter (\<lambda>e. e = ''sim'') es), length (filter (\<lambda>e. js_includes e ''parcial'') es),
          length (filter (\<lambda>e. e = answer_no) es)))"

text \<open>The widths of the three bars, in percent (\<open>'0%'\<close> when there is no answer).\<close>

definition renderExpectationsChart :: "nat \<Rightarrow> nat \<Rightarrow> nat \<Rightarrow> rat list" where
  "renderExpectationsChart yes partial no =
     (let total = yes + partial + no
      in map (\<lambda>v. if total = 0 then 0 else 100 * of_nat v / of_nat total) [yes, partial, no])"

subsection \<open>Bar charts\<close>

definition bar_counts :: "nat list \<Rightarrow> nat list" where
  "bar_counts values = map (\<lambda>n. length (filter (\<lambda>v. v = n) values)) [1..<6]"

text \<open>Each bar is its count and its height in pixels, \<open>180 * count / max\<close> with
  \<open>max = Math.max(...counts, 1)\<close>.\<close>

definition renderBarChart :: "nat list \<Rightarrow> (nat \<times> rat) list" where
  "renderBarChart values =
     (let counts = bar_counts values; mx = Max (set (counts @ [1]))
      in map (\<lambda>c. (c, 180 * of_nat c / of_nat mx)) counts)"

subsection \<open>The statistics of \<open>renderDashboard\<close>\<close>

record dashboard =
  dash_total :: nat
  dash_ratings :: "nat list"
  dash_avgRating :: "rat option"
  dash_satisfaction :: nat
  dash_scheduleRatings :: "nat list"
  dash_avgSchedule :: "rat option"
  dash_period :: "(ymd \<times> ymd \<times> nat) option"
  dash_ageInfo :: "(rat \<times> nat \<times> nat) option"
  dash_ageDistribution :: "(jsstr \<times> nat) list"
  dash_expectations :: "nat \<times> nat \<times> nat"
  dash_expectationsChart :: "rat list"
  dash_ubsChart :: "(nat \<times> rat) list"
  dash_scheduleChart :: "(nat \<times> rat) list"

definition dashboard_stats :: "js_env \<Rightarrow> jsobj list \<Rightarrow> js_error + dashboard" where
  "dashboard_stats env data =
     (let ratings = score_list key_rating data;
          sched = score_list key_schedule data
      in case survey_dates env data of
           Inl e \<Rightarrow> Inl e
         | Inr dates \<Rightarrow>
             (let ages = ages_of data;
                  (yes, partial, no) = expectation_counts data
              in Inr \<lparr>dash_total = length data, dash_ratings = ratings,
                      dash_avgRating = average ratings,
                      dash_satisfaction = satisfactionRate ratings,
                      dash_scheduleRatings = sched, dash_avgSchedule = average sched,
                      dash_period = period_of dates, dash_ageInfo = age_info ages,
                      dash_ageDistribution = (if ages = [] then [] else renderAgeDistribution ages),
                      dash_expectations = (yes, partial, no),
                      dash_expectationsChart = renderExpectationsChart yes partial no,
                      dash_ubsChart = renderBarChart ratings,
                      dash_scheduleChart = renderBarChart sched\<rparr>))"

subsection \<open>Lemmas\<close>

lemma sum_list_bounds:
  "\<forall>x\<in>set xs. lo \<le> x \<and> x \<le> hi \<Longrightarrow> lo * length xs \<le> sum_list xs \<and> sum_list xs \<le> hi * (length xs :: nat)"
  by (induction xs) auto

lemma score_list_range: "v \<in> set (score_list k data) \<Longrightarrow> 1 \<le> v \<and> v \<le> 5"
  by (auto simp: score_list_def)

lemma satisfied_count_le: "satisfied_count rs \<le> length rs"
  by (simp add: satisfied_count_def)

lemma round_half_div:
  assumes n: "0 < n" and qr: "2 * n * q + r = 200 * s + n" and r: "r < 2 * n"
  shows "\<bar>of_nat q - 100 * of_nat s / of_nat n\<bar> \<le> (1 / 2 :: rat)"
proof -
  have c: "2 * of_nat n * of_nat q + of_nat r = (200 * of_nat s + of_nat n :: rat)"
    using arg_cong[OF qr, of "of_nat :: nat \<Rightarrow> rat"] by simp
  have d: "2 * of_nat n * of_nat q - 200 * of_nat s = (of_nat n - of_nat r :: rat)"
    using c by linarith
  have "(of_nat q :: rat) - 100 * of_nat s / of_nat n
        = (2 * of_nat n * of_nat q - 200 * of_nat s) / (2 * of_nat n)"
    using n by (simp add: field_simps)
  then have "\<bar>(of_nat q :: rat) - 100 * of_nat s / of_nat n\<bar>
             = \<bar>of_nat n - of_nat r\<bar> / (2 * of_nat n)"
    by (simp add: d abs_divide)
  also have "\<dots> \<le> of_nat n / (2 * of_nat n)"
    using r by (intro divide_right_mono) (simp_all add: abs_le_iff)
  also have "\<dots> = 1 / 2"
    using n by simp
  finally show ?thesis .
qed

lemma bar_counts_length [simp]: "length (bar_counts vs) = 5"
  by (simp add: bar_counts_def)

lemma sum_bar_counts:
  "\<forall>v\<in>set vs. 1 \<le> v \<and> v \<le> 5 \<Longrightarrow> sum_list (bar_counts vs) = length vs"
proof (induction vs)
  case Nil
  then show ?case by (simp add: bar_counts_def upt_rec)
next
  case (Cons v vs)
  then have "v = 1 \<or> v = 2 \<or> v = 3 \<or> v = 4 \<or> v = 5" by auto
  with Cons show ?case by (auto simp: bar_counts_def upt_rec)
qed

definition tally :: "(jsstr \<times> nat) list \<Rightarrow> jsstr \<Rightarrow> nat" where
  "tally d b = (case map_of d b of None \<Rightarrow> 0 | Some n \<Rightarrow> n)"

lemma map_fst_count_incr:
  "map fst (count_incr d k) = (if k \<in> set (map fst d) then map fst d else map fst d @ [k])"
  by (induction d k rule: count_incr.induct) auto

lemma tally_count_incr: "tally (count_incr d k) b = tally d b + (if b = k then 1 else 0)"
  by (induction d k rule: count_incr.induct) (auto simp: tally_def)

lemma map_snd_tally: "distinct (map fst d) \<Longrightarrow> map snd d = map (tally d) (map fst d)"
proof (induction d)
  case (Cons p d)
  obtain k n where p: "p = (k, n)" by fastforce
  have "map (tally (p # d)) (map fst d) = map (tally d) (map fst d)"
    using Cons.prems p by (auto simp: tally_def)
  with Cons p show ?case by (simp add: tally_def)
qed simp

lemma renderAgeDistribution_snoc:
  "renderAgeDistribution (ages @ [a]) = count_incr (renderAgeDistribution ages) (age_bucket a)"
  by (simp add: renderAgeDistribution_def)

lemma renderAgeDistribution_keys:
  "map fst (renderAgeDistribution ages) = rev (remdups (rev (map age_bucket ages)))"
  by (induction ages rule: rev_induct)
    (simp_all add: renderAgeDistribution_snoc map_fst_count_incr, simp add: renderAgeDistribution_def)

lemma renderAgeDistribution_tally:
  "tally (renderAgeDistribution ages) b = length (filter (\<lambda>a. age_bucket a = b) ages)"
  by (induction ages rule: rev_induct)
    (simp_all add: renderAgeDistribution_snoc tally_count_incr, simp add: renderAgeDistribution_def tally_def)

lemma Max_bar_ge: "c \<in> set (bar_counts vs) \<Longrightarrow> c \<le> Max (set (bar_counts vs @ [1]))"
  by (simp add: Max_ge_iff)

lemma Max_bar_pos: "1 \<le> Max (set (bar_counts vs @ [1]))"
  by (simp add: Max_ge_iff)

lemma Max_bar_in:
  assumes "0 < sum_list (bar_counts vs)"
  shows "Max (set (bar_counts vs @ [1])) \<in> set (bar_counts vs)"
proof -
  let ?m = "Max (set (bar_counts vs @ [1]))"
  have m: "?m \<in> set (bar_counts vs @ [1])" by (rule Max_in) simp_all
  obtain c where c: "c \<in> set (bar_counts vs)" "0 < c"
    using assms by (metis elem_le_sum_list gr_zeroI in_set_conv_nth less_nat_zero_code sum_list_eq_0_iff)
  show ?thesis
  proof (cases "?m \<in> set (bar_counts vs)")
    case False
    with m have "?m = 1" by simp
    moreover have "c \<le> ?m" using c(1) by (rule Max_bar_ge)
    ultimately have "c = ?m" using c(2) by linarith
    with c(1) show ?thesis by simp
  qed
qed

lemma renderBarChart_heights_le:
  "p \<in> set (renderBarChart vs) \<Longrightarrow> 0 \<le> snd p \<and> snd p \<le> 180"
proof -
  assume "p \<in> set (renderBarChart vs)"
  then obtain c where c: "c \<in> set (bar_counts vs)"
    and p: "p = (c, 180 * of_nat c / of_nat (Max (set (bar_counts vs @ [1]))))"
    by (auto simp: renderBarChart_def Let_def)
  let ?m = "Max (set (bar_counts vs @ [1]))"
  have "of_nat c \<le> (of_nat ?m :: rat)" using Max_bar_ge[OF c] by simp
  moreover have "0 < ?m" using Max_bar_pos[of vs] by linarith
  then have "(0 :: rat) < of_nat ?m" by (simp only: of_nat_0_less_iff)
  ultimately show ?thesis using p by (simp add: divide_le_eq)
qed

lemma length_map_filter: "length (List.map_filter f xs) = length (filter (\<lambda>x. f x \<noteq> None) xs)"
  by (induction xs) (auto simp: map_filter_simps split: option.split)

lemma map_fst_renderBarChart: "map fst (renderBarChart vs) = bar_counts vs"
  by (simp add: renderBarChart_def Let_def comp_def)

lemma renderBarChart_full:
  assumes "0 < sum_list (bar_counts vs)"
  shows "\<exists>p\<in>set (renderBarChart vs). snd p = 180"
proof -
  let ?m = "Max (set (bar_counts vs @ [1]))"
  have m: "?m \<in> set (bar_counts vs)" using assms by (rule Max_bar_in)
  have "0 < ?m" using Max_bar_pos[of vs] by linarith
  then have "(180 :: rat) * of_nat ?m / of_nat ?m = 180" by simp
  moreover have "(?m, 180 * of_nat ?m / of_nat ?m) \<in> set (renderBarChart vs)"
    using m by (auto simp: renderBarChart_def Let_def)
  ultimately show ?thesis by force
qed

lemma renderBarChart_empty:
  "sum_list (bar_counts vs) = 0 \<Longrightarrow> p \<in> set (renderBarChart vs) \<Longrightarrow> snd p = 0"
  by (auto simp: renderBarChart_def Let_def sum_list_eq_0_iff)

lemma expectations_key_untrimmed: "\<not> trimmed expectations_key"
  by (simp add: trimmed_def expectations_key_def js_ws_def)

lemma expectation_counts_trimmed_keys:
  assumes "\<forall>d\<in>set data. \<forall>k\<in>fst ` set d. trimmed k"
  shows "expectation_counts data = (0, 0, 0)"
proof -
  have "\<forall>d\<in>set data. obj_get_or_empty d expectations_key = []"
    using assms expectations_key_untrimmed by (metis list.set_map obj_get_or_empty_absent)
  then show ?thesis
    by (simp add: expectation_counts_def filter_empty_conv js_lower_def answer_no_def)
qed

subsection \<open>Properties of the statistics\<close>

text \<open>
  C12. The satisfaction rate is a percentage: it never exceeds 100, and with at least
  one valid rating it is the share of ratings 4 and 5 in percent, rounded to the
  nearest integer (within one half of the exact share).
\<close>

theorem satisfactionRate_bounds:
  "satisfactionRate rs \<le> 100
   \<and> (rs \<noteq> [] \<longrightarrow> \<bar>of_nat (satisfactionRate rs) - 100 * of_nat (satisfied_count rs) / of_nat (length rs)\<bar>
                    \<le> (1 / 2 :: rat))"
proof (cases "rs = []")
  case False
  define n s where "n = length rs" and "s = satisfied_count rs"
  have n: "0 < n" using False by (simp add: n_def)
  have sn: "s \<le> n" by (simp add: s_def n_def satisfied_count_le)
  define q r where "q = (200 * s + n) div (2 * n)" and "r = (200 * s + n) mod (2 * n)"
  have qr: "2 * n * q + r = 200 * s + n" by (simp add: q_def r_def)
  have r: "r < 2 * n" using n by (simp add: r_def)
  have "(2 * n) * q < (2 * n) * 101" using qr sn n by linarith
  then have "q \<le> 100" by (simp only: mult_less_cancel1) linarith
  moreover have "satisfactionRate rs = q"
    using False by (simp add: satisfactionRate_def q_def n_def s_def)
  ultimately show ?thesis
    using round_half_div[OF n qr r] False by (simp add: n_def s_def)
qed (simp add: satisfactionRate_def)

theorem satisfactionRate_bounds_witness:
  "satisfactionRate [5, 4, 3] = 67
   \<and> \<bar>of_nat (satisfactionRate [5, 4, 3]) - 100 * of_nat (satisfied_count [5, 4, 3]) / of_nat (length [5, 4, 3 :: nat])\<bar>
     \<le> (1 / 2 :: rat)"
proof -
  have "satisfactionRate [5, 4, 3] = 67"
    by (simp add: satisfactionRate_def satisfied_count_def)
  with satisfactionRate_bounds[of "[5, 4, 3]"] show ?thesis by simp
qed

text \<open>
  C23. The average of the valid ratings of a column (the UBS rating, the schedule
  rating), when there is one, lies between 1 and 5.
\<close>

theorem average_scores_bounds:
  assumes "average (score_list k data) = Some a"
  shows "1 \<le> a \<and> a \<le> 5"
proof -
  let ?xs = "score_list k data"
  have ne: "?xs \<noteq> []" and a: "a = of_nat (sum_list ?xs) / of_nat (length ?xs)"
    using assms by (auto simp: average_def split: if_splits)
  have "1 * length ?xs \<le> sum_list ?xs \<and> sum_list ?xs \<le> 5 * length ?xs"
    by (rule sum_list_bounds) (auto dest: score_list_range)
  then have s1: "length ?xs \<le> sum_list ?xs" and s2: "sum_list ?xs \<le> 5 * length ?xs"
    by simp_all
  from s1 have "(of_nat (length ?xs) :: rat) \<le> of_nat (sum_list ?xs)"
    by (simp only: of_nat_le_iff)
  moreover from s2 have "(of_nat (sum_list ?xs) :: rat) \<le> 5 * of_nat (length ?xs)"
    by (metis of_nat_le_iff of_nat_mult of_nat_numeral)
  moreover have "(0 :: rat) < of_nat (length ?xs)" using ne by simp
  ultimately show ?thesis using a by (simp add: le_divide_eq divide_le_eq)
qed

theorem average_scores_bounds_witness:
  "average (score_list ''r'' [[(''r'', ''5'')], [(''r'', ''2'')]]) = Some (7 / 2)
   \<and> 1 \<le> (7 / 2 :: rat) \<and> (7 / 2 :: rat) \<le> 5"
proof -
  have "average (score_list ''r'' [[(''r'', ''5'')], [(''r'', ''2'')]]) = Some (7 / 2)"
    unfolding average_def score_list_def null_as_number_def getNumber_def obj_get_def by code_simp
  with average_scores_bounds[OF this] show ?thesis by simp
qed

text \<open>
  C24. Each bar of a score chart is between 0 and 180 pixels high; the bars count
  every valid score exactly once; and some bar reaches the full 180 pixels exactly
  when there is a valid score.
\<close>

theorem renderBarChart_scores:
  "list_all (\<lambda>p. 0 \<le> snd p \<and> snd p \<le> 180) (renderBarChart (score_list k data))
   \<and> sum_list (map fst (renderBarChart (score_list k data))) = length (score_list k data)
   \<and> (list_ex (\<lambda>p. snd p = 180) (renderBarChart (score_list k data)) \<longleftrightarrow> score_list k data \<noteq> [])"
proof -
  let ?vs = "score_list k data"
  have sum: "sum_list (bar_counts ?vs) = length ?vs"
    by (rule sum_bar_counts) (auto dest: score_list_range)
  have "list_ex (\<lambda>p. snd p = 180) (renderBarChart ?vs) \<longleftrightarrow> ?vs \<noteq> []"
  proof
    assume "list_ex (\<lambda>p. snd p = 180) (renderBarChart ?vs)"
    then show "?vs \<noteq> []"
      using renderBarChart_empty[of ?vs] sum by (force simp: list_ex_iff)
  next
    assume "?vs \<noteq> []"
    then show "list_ex (\<lambda>p. snd p = 180) (renderBarChart ?vs)"
      using renderBarChart_full[of ?vs] sum by (simp add: list_ex_iff)
  qed
  then show ?thesis
    using renderBarChart_heights_le[of _ ?vs] sum by (simp add: list_all_iff map_fst_renderBarChart)
qed

theorem renderBarChart_scores_witness:
  "renderBarChart (score_list ''r'' [[(''r'', ''5'')], [(''r'', ''5'')], [(''r'', ''2'')]])
     = [(0, 0), (1, 90), (0, 0), (0, 0), (2, 180)]
   \<and> list_ex (\<lambda>p. snd p = 180) (renderBarChart (score_list ''r'' [[(''r'', ''5'')], [(''r'', ''5'')], [(''r'', ''2'')]]))"
proof -
  have "renderBarChart (score_list ''r'' [[(''r'', ''5'')], [(''r'', ''5'')], [(''r'', ''2'')]])
     = [(0, 0), (1, 90), (0, 0), (0, 0), (2, 180)]"
    unfolding renderBarChart_def bar_counts_def score_list_def null_as_number_def getNumber_def
      obj_get_def by code_simp
  moreover have "score_list ''r'' [[(''r'', ''5'')], [(''r'', ''5'')], [(''r'', ''2'')]] \<noteq> []"
    unfolding score_list_def null_as_number_def getNumber_def obj_get_def by code_simp
  ultimately show ?thesis
    using renderBarChart_scores[of "''r''" "[[(''r'', ''5'')], [(''r'', ''5'')], [(''r'', ''2'')]]"]
    by simp
qed

text \<open>
  C25. The age distribution lists each age band once, in the order its first age
  occurs, with the number of ages in that band.
\<close>

theorem renderAgeDistribution_counts:
  "map fst (renderAgeDistribution ages) = rev (remdups (rev (map age_bucket ages)))
   \<and> map snd (renderAgeDistribution ages)
     = map (\<lambda>b. length (filter (\<lambda>a. age_bucket a = b) ages)) (map fst (renderAgeDistribution ages))"
proof -
  have keys: "map fst (renderAgeDistribution ages) = rev (remdups (rev (map age_bucket ages)))"
    by (rule renderAgeDistribution_keys)
  then have "distinct (map fst (renderAgeDistribution ages))" by simp
  then have "map snd (renderAgeDistribution ages)
             = map (tally (renderAgeDistribution ages)) (map fst (renderAgeDistribution ages))"
    by (rule map_snd_tally)
  with keys show ?thesis by (simp add: renderAgeDistribution_tally)
qed

text \<open>
  C26. \<open>periodDetail\<close> ("N dias de respostas") counts the responses whose timestamp
  holds a date, not the days: with the timestamps read, the number shown is the
  number of dated responses (and nothing is shown when there is none).
\<close>

theorem period_detail_counts_responses:
  assumes "survey_dates env data = Inr dates"
  shows "map_option (\<lambda>p. snd (snd p)) (period_of dates)
         = (let n = length (filter (\<lambda>d. getDate (obj_get_or_empty d key_timestamp) \<noteq> None) data)
            in if n = 0 then None else Some n)"
proof -
  have "dates = sort_by (\<lambda>a b. num_sub_sign (date_value env a) (date_value env b))
                  (List.map_filter (\<lambda>d. getDate (obj_get_or_empty d key_timestamp)) data)"
    using assms by (simp add: survey_dates_def split: if_splits)
  then have "length dates = length (filter (\<lambda>d. getDate (obj_get_or_empty d key_timestamp) \<noteq> None) data)"
    by (simp add: length_map_filter)
  then show ?thesis
    by (cases "dates = []") (simp_all add: period_of_def Let_def, metis length_0_conv)
qed

theorem period_detail_counts_responses_witness:
  "survey_dates \<lparr>locale_compare = (\<lambda>a b. 0), date_value = (\<lambda>d. NaN)\<rparr>
     [[(key_timestamp, ''2025/08/04 10:02:03'')], [(key_timestamp, ''2025/08/04 11:40:00'')]]
     = Inr [(2025, 8, 4), (2025, 8, 4)]
   \<and> map_option (\<lambda>p. snd (snd p)) (period_of [(2025, 8, 4), (2025, 8, 4)]) = Some 2"
proof -
  have d: "survey_dates \<lparr>locale_compare = (\<lambda>a b. 0), date_value = (\<lambda>d. NaN)\<rparr>
     [[(key_timestamp, ''2025/08/04 10:02:03'')], [(key_timestamp, ''2025/08/04 11:40:00'')]]
     = Inr [(2025, 8, 4), (2025, 8, 4)]"
    unfolding survey_dates_def key_timestamp_def obj_get_or_empty_def obj_get_def sort_by_def
      date_pat_def digits_nat_def by code_simp
  have "getDate (obj_get_or_empty [(key_timestamp, ''2025/08/04 10:02:03'')] key_timestamp) \<noteq> None"
    and "getDate (obj_get_or_empty [(key_timestamp, ''2025/08/04 11:40:00'')] key_timestamp) \<noteq> None"
    unfolding obj_get_or_empty_def obj_get_def date_pat_def by code_simp+
  with period_detail_counts_responses[OF d] d show ?thesis by (simp add: period_of_def)
qed

end
