(* ===== verification/Feedback.thy ===== *)
theory Feedback
  imports Survey
begin

text \<open>
  The comment analysis of \<open>src/script.js\<close>: \<open>renderFeedbackAnalysis\<close> (lines 302
  to 323), \<open>renderFeedbackList\<close> (lines 325 to 334) and \<open>renderInsights\<close> (lines
  337 to 365). The counts and lists they show are values of the model, and each list
  item is the HTML text the template literal builds. The rating of a response is
  read by \<open>parseInt\<close> (ECMA-262 19.2.5, \<open>js_parseInt\<close> below), not by
  \<open>getNumber\<close>. \<open>d['6. ...'].trim()\<close> throws a \<open>TypeError\<close> on a response
  without the comment column, as the model's \<open>Inl TypeError\<close>.
\<close>

subsection \<open>\<open>parseInt\<close>\<close>

text \<open>\<open>parseInt(s)\<close> with no radix: leading white space is skipped, one sign is
  read, a \<open>0x\<close> or \<open>0X\<close> prefix selects radix 16, and the longest prefix of
  digits of the radix is read; without such a digit the result is NaN.
  \<open>parseInt(undefined)\<close> parses the string \<open>'undefined'\<close>.\<close>

definition js_parseInt :: "jsstr \<Rightarrow> jsnum" where
  "js_parseInt s =
     (let t = js_trim_start s;
          (neg, t1) = (case t of
                         c # r \<Rightarrow> if c = CHR ''-'' then (True, r)
                                  else if c = CHR ''+'' then (False, r) else (False, t)
                       | [] \<Rightarrow> (False, []));
          (b, t2) = (case t1 of
                       c0 # c1 # r \<Rightarrow> if c0 = CHR ''0'' \<and> (c1 = CHR ''x'' \<or> c1 = CHR ''X'')
                                     then (16, r) else (10, t1)
                     | _ \<Rightarrow> (10, t1));
          z = takeWhile (\<lambda>c. radix_digit b c \<noteq> None) t2
      in if z = [] then NaN
         else case radix_value b 0 z of
                None \<Rightarrow> NaN
              | Some n \<Rightarrow> Fin (if neg then - of_nat n else of_nat n))"

text \<open>\<open>x < r\<close> for a number \<open>x\<close> and a rational \<open>r\<close>; NaN compares false.\<close>

fun js_less_num :: "jsnum \<Rightarrow> rat \<Rightarrow> bool" where
  "js_less_num NaN r = False"
| "js_less_num (Fin q) r = (q < r)"
| "js_less_num PosInf r = False"
| "js_less_num NegInf r = True"

subsection \<open>\<open>renderFeedbackAnalysis\<close>\<close>

definition rating_value :: "jsobj \<Rightarrow> jsnum" where
  "rating_value d =
     js_parseInt (case obj_get d key_rating of None \<Rightarrow> ''undefined'' | Some v \<Rightarrow> v)"

definition comment_lower :: "jsobj \<Rightarrow> jsstr" where
  "comment_lower d = js_lower (obj_get_or_empty d key_comment)"

definition has_comment :: "jsobj \<Rightarrow> bool" where
  "has_comment d \<longleftrightarrow> js_trim (obj_get_or_empty d key_comment) \<noteq> []"

text \<open>The praise words; 0xF3 is \<open>\<^verbatim>\<open>o\<close>\<close> with acute accent.\<close>

definition praise_words :: "jsstr list" where
  "praise_words = [[CHR 0xF3] @ ''timo'', ''excelente'', ''maravilhoso'', ''bom'', ''satisfeito'']"

definition is_positive :: "jsobj \<Rightarrow> bool" where
  "is_positive d \<longleftrightarrow>
     rating_value d = Fin 5 \<and> list_ex (\<lambda>w. js_includes (comment_lower d) w) praise_words"

definition is_suggestion :: "jsobj \<Rightarrow> bool" where
  "is_suggestion d \<longleftrightarrow> js_less_num (rating_value d) 5 \<or> comment_lower d \<noteq> []"

record feedback =
  fb_totalComments :: nat
  fb_positive :: nat
  fb_suggestions :: nat
  fb_excellent :: "jsobj list"
  fb_good :: "jsobj list"
  fb_suggestionList :: "jsobj list"

definition renderFeedbackAnalysis :: "jsobj list \<Rightarrow> js_error + feedback" where
  "renderFeedbackAnalysis data =
     (if list_all (\<lambda>d. obj_get d key_comment \<noteq> None) data then
        (let comments = filter (\<lambda>c. c \<noteq> []) (map (\<lambda>d. js_trim (obj_get_or_empty d key_comment)) data);
             suggestions = filter is_suggestion data
         in Inr \<lparr>fb_totalComments = length comments,
                 fb_positive = length (filter is_positive data),
                 fb_suggestions = length suggestions,
                 fb_excellent = filter (\<lambda>d. rating_value d = Fin 5 \<and> has_comment d) data,
                 fb_good = filter (\<lambda>d. rating_value d = Fin 4 \<and> has_comment d) data,
                 fb_suggestionList = filter has_comment suggestions\<rparr>)
      else Inl TypeError)"

subsection \<open>\<open>renderFeedbackList\<close>\<close>

text \<open>A template literal writes \<open>undefined\<close> for a missing column.\<close>

definition template_str :: "jsstr option \<Rightarrow> jsstr" where
  "template_str v = (case v of None \<Rightarrow> ''undefined'' | Some s \<Rightarrow> s)"

definition feedback_item :: "jsobj \<Rightarrow> jsstr" where
  "feedback_item d =
     ''<div class='' @ [CHR 0x27] @ ''feedback-text'' @ [CHR 0x27] @ ''>'' @ [QUOTE]
     @ template_str (obj_get d key_comment) @ [QUOTE]
     @ ''</div><div class='' @ [CHR 0x27] @ ''feedback-meta'' @ [CHR 0x27] @ ''><span>''
     @ template_str (obj_get d key_name) @ ''</span><span>''
     @ template_str (obj_get d key_timestamp) @ ''</span></div>''"

definition renderFeedbackList :: "jsobj list \<Rightarrow> jsstr list" where
  "renderFeedbackList list = map feedback_item list"

subsection \<open>\<open>renderInsights\<close>\<close>

record insights =
  ins_avgRating :: "rat option"
  ins_satisfaction :: nat
  ins_avgSchedule :: "rat option"
  ins_expectations :: "nat \<times> nat \<times> nat"
  ins_suggestions :: nat

definition renderInsights ::
  "jsobj list \<Rightarrow> rat option \<Rightarrow> nat \<Rightarrow> rat option \<Rightarrow> nat \<Rightarrow> nat \<Rightarrow> nat \<Rightarrow> js_error + insights" where
  "renderInsights data avgRating satisfactionRate avgSchedule yes partial no =
     (if list_all (\<lambda>d. obj_get d key_comment \<noteq> None) data
      then Inr \<lparr>ins_avgRating = avgRating, ins_satisfaction = satisfactionRate,
                ins_avgSchedule = avgSchedule, ins_expectations = (yes, partial, no),
                ins_suggestions = length (filter has_comment data)\<rparr>
      else Inl TypeError)"

subsection \<open>Lemmas\<close>

lemma has_comment_lower: "has_comment d \<Longrightarrow> comment_lower d \<noteq> []"
  by (auto simp: has_comment_def comment_lower_def js_lower_def js_trim_Nil_iff)

lemma praise_words_solid: "w \<in> set praise_words \<Longrightarrow> w \<noteq> [] \<and> \<not> js_ws (hd w)"
  by (auto simp: praise_words_def js_ws_def)

lemma includes_solid_trim:
  assumes "js_includes (js_lower s) w" and "w \<noteq> []" and "\<not> js_ws (hd w)"
  shows "js_trim s \<noteq> []"
proof -
  have "sublist w (js_lower s)" using assms(1) by (simp add: js_includes_sublist)
  then have "hd w \<in> set (js_lower s)"
    using assms(2) by (metis hd_in_set set_mono_sublist subsetD)
  then obtain c where "c \<in> set s" and "js_lower_char c = hd w"
    by (auto simp: js_lower_def)
  with assms(3) have "\<not> js_ws c" by (metis js_ws_js_lower_char)
  with \<open>c \<in> set s\<close> show ?thesis by (auto simp: js_trim_Nil_iff)
qed

lemma positive_has_comment: "is_positive d \<Longrightarrow> has_comment d"
  using includes_solid_trim praise_words_solid
  by (fastforce simp: is_positive_def has_comment_def comment_lower_def list_ex_iff)

lemma length_filter_nonempty_map:
  "length (filter (\<lambda>c. c \<noteq> []) (map f xs)) = length (filter (\<lambda>x. f x \<noteq> []) xs)"
  by (induction xs) simp_all

lemma renderFeedbackAnalysis_Inr:
  "renderFeedbackAnalysis data = Inr fb \<Longrightarrow>
   list_all (\<lambda>d. obj_get d key_comment \<noteq> None) data
   \<and> fb = \<lparr>fb_totalComments = length (filter has_comment data),
          fb_positive = length (filter is_positive data),
          fb_suggestions = length (filter is_suggestion data),
          fb_excellent = filter (\<lambda>d. rating_value d = Fin 5 \<and> has_comment d) data,
          fb_good = filter (\<lambda>d. rating_value d = Fin 4 \<and> has_comment d) data,
          fb_suggestionList = filter has_comment (filter is_suggestion data)\<rparr>"
  unfolding renderFeedbackAnalysis_def Let_def length_filter_nonempty_map
  by (auto simp: has_comment_def[abs_def] split: if_splits)

lemma feedback_item_raw_comment:
  assumes "obj_get d key_comment = Some c"
  shows "sublist c (feedback_item d)"
proof -
  have "feedback_item d
        = (''<div class='' @ [CHR 0x27] @ ''feedback-text'' @ [CHR 0x27] @ ''>'' @ [QUOTE]) @ c
          @ ([QUOTE] @ ''</div><div class='' @ [CHR 0x27] @ ''feedback-meta'' @ [CHR 0x27] @ ''><span>''
             @ template_str (obj_get d key_name) @ ''</span><span>''
             @ template_str (obj_get d key_timestamp) @ ''</span></div>'')"
    using assms by (simp add: feedback_item_def template_str_def)
  then show ?thesis by (metis sublist_appendI)
qed

lemma sample_feedback:
  "renderFeedbackAnalysis [[(key_rating, ''5''), (key_comment, ''Muito bom'')]] = Inr \<lparr>fb_totalComments = 1, fb_positive = 1, fb_suggestions = 1, fb_excellent = [[(key_rating, ''5''), (key_comment, ''Muito bom'')]], fb_good = [], fb_suggestionList = [[(key_rating, ''5''), (key_comment, ''Muito bom'')]]\<rparr>"
proof -
  have k: "key_comment \<noteq> key_rating" by (simp add: key_comment_def key_rating_def)
  have n: "js_parseInt ''5'' = Fin 5" by code_simp
  have w: "list_ex (\<lambda>w. js_includes (js_lower ''Muito bom'') w) praise_words" by code_simp
  have t: "js_trim ''Muito bom'' \<noteq> []" by code_simp
  show ?thesis
    using k n w t
    by (simp add: renderFeedbackAnalysis_def Let_def is_suggestion_def is_positive_def has_comment_def
        rating_value_def comment_lower_def obj_get_or_empty_def obj_get_def js_lower_def)
qed

subsection \<open>Properties of the comment analysis\<close>

text \<open>
  C27. The list of suggestions shows every response with a non-blank comment, whatever
  its rating: the condition "rating below 5 or a comment" of the suggestion filter
  never removes a commented response.
\<close>

theorem suggestion_list_all_comments:
  assumes "renderFeedbackAnalysis data = Inr fb"
  shows "fb_suggestionList fb = filter has_comment data"
proof -
  have "filter has_comment (filter is_suggestion data) = filter has_comment data"
    by (auto simp: is_suggestion_def intro: filter_cong dest: has_comment_lower)
  with renderFeedbackAnalysis_Inr[OF assms] show ?thesis by simp
qed

theorem suggestion_list_all_comments_witness:
  "renderFeedbackAnalysis [[(key_rating, ''5''), (key_comment, ''Muito bom'')]]
     = Inr \<lparr>fb_totalComments = 1, fb_positive = 1, fb_suggestions = 1,
            fb_excellent = [[(key_rating, ''5''), (key_comment, ''Muito bom'')]], fb_good = [],
            fb_suggestionList = [[(key_rating, ''5''), (key_comment, ''Muito bom'')]]\<rparr>
   \<and> fb_suggestionList \<lparr>fb_totalComments = 1, fb_positive = 1, fb_suggestions = 1,
            fb_excellent = [[(key_rating, ''5''), (key_comment, ''Muito bom'')]], fb_good = [],
            fb_suggestionList = [[(key_rating, ''5''), (key_comment, ''Muito bom'')]]\<rparr>
     = filter has_comment [[(key_rating, ''5''), (key_comment, ''Muito bom'')]]"
proof -
  have r: "renderFeedbackAnalysis [[(key_rating, ''5''), (key_comment, ''Muito bom'')]]
     = Inr \<lparr>fb_totalComments = 1, fb_positive = 1, fb_suggestions = 1,
            fb_excellent = [[(key_rating, ''5''), (key_comment, ''Muito bom'')]], fb_good = [],
            fb_suggestionList = [[(key_rating, ''5''), (key_comment, ''Muito bom'')]]\<rparr>"
    by (rule sample_feedback)
  show ?thesis by (intro conjI r suggestion_list_all_comments[OF r])
qed

text \<open>
  C28. Every response counted as a positive comment (rating 5 and a praise word) is
  listed among the excellent feedback, so the positive count never exceeds the
  length of that list. The comment on line 305 announces "palavras-chave ou nota 5"
  (a praise word or rating 5); the filter on lines 306 to 310 requires both.
\<close>

theorem positive_within_excellent:
  assumes "renderFeedbackAnalysis data = Inr fb"
  shows "fb_positive fb = length (filter is_positive (fb_excellent fb))
         \<and> fb_positive fb \<le> length (fb_excellent fb)"
proof -
  have f: "filter is_positive (filter (\<lambda>d. rating_value d = Fin 5 \<and> has_comment d) data)
           = filter is_positive data"
    unfolding filter_filter
  proof (rule filter_cong)
    fix x
    assume "x \<in> set data"
    show "((rating_value x = Fin 5 \<and> has_comment x) \<and> is_positive x) = is_positive x"
      using positive_has_comment[of x] by (auto simp: is_positive_def)
  qed simp
  from renderFeedbackAnalysis_Inr[OF assms]
  have "fb_positive fb = length (filter is_positive data)"
    and "fb_excellent fb = filter (\<lambda>d. rating_value d = Fin 5 \<and> has_comment d) data"
    by simp_all
  with f show ?thesis using length_filter_le[of is_positive "fb_excellent fb"] by simp
qed

theorem positive_within_excellent_witness:
  "renderFeedbackAnalysis [[(key_rating, ''5''), (key_comment, ''Muito bom'')]] = Inr (\<lparr>fb_totalComments = 1, fb_positive = 1, fb_suggestions = 1, fb_excellent = [[(key_rating, ''5''), (key_comment, ''Muito bom'')]], fb_good = [], fb_suggestionList = [[(key_rating, ''5''), (key_comment, ''Muito bom'')]]\<rparr>)
   \<and> fb_positive \<lparr>fb_totalComments = 1, fb_positive = 1, fb_suggestions = 1, fb_excellent = [[(key_rating, ''5''), (key_comment, ''Muito bom'')]], fb_good = [], fb_suggestionList = [[(key_rating, ''5''), (key_comment, ''Muito bom'')]]\<rparr> = length (filter is_positive (fb_excellent \<lparr>fb_totalComments = 1, fb_positive = 1, fb_suggestions = 1, fb_excellent = [[(key_rating, ''5''), (key_comment, ''Muito bom'')]], fb_good = [], fb_suggestionList = [[(key_rating, ''5''), (key_comment, ''Muito bom'')]]\<rparr>))
   \<and> fb_positive \<lparr>fb_totalComments = 1, fb_positive = 1, fb_suggestions = 1, fb_excellent = [[(key_rating, ''5''), (key_comment, ''Muito bom'')]], fb_good = [], fb_suggestionList = [[(key_rating, ''5''), (key_comment, ''Muito bom'')]]\<rparr> \<le> length (fb_excellent \<lparr>fb_totalComments = 1, fb_positive = 1, fb_suggestions = 1, fb_excellent = [[(key_rating, ''5''), (key_comment, ''Muito bom'')]], fb_good = [], fb_suggestionList = [[(key_rating, ''5''), (key_comment, ''Muito bom'')]]\<rparr>)"
proof -
  have r: "renderFeedbackAnalysis [[(key_rating, ''5''), (key_comment, ''Muito bom'')]] = Inr \<lparr>fb_totalComments = 1, fb_positive = 1, fb_suggestions = 1, fb_excellent = [[(key_rating, ''5''), (key_comment, ''Muito bom'')]], fb_good = [], fb_suggestionList = [[(key_rating, ''5''), (key_comment, ''Muito bom'')]]\<rparr>"
    by (rule sample_feedback)
  show ?thesis using positive_within_excellent[OF r] r by blast
qed

text \<open>
  C29. Once the comment analysis has run, the insight cards do not fail, and their
  count of suggestions and comments is the number of non-blank comments the analysis
  shows as the comment total.
\<close>

theorem insights_comment_total:
  assumes "renderFeedbackAnalysis data = Inr fb"
  shows "\<exists>ins. renderInsights data a s b yes partial no = Inr ins
               \<and> ins_suggestions ins = fb_totalComments fb"
  using renderFeedbackAnalysis_Inr[OF assms] by (simp add: renderInsights_def)

theorem insights_comment_total_witness:
  "renderFeedbackAnalysis [[(key_rating, ''5''), (key_comment, ''Muito bom'')]] = Inr (\<lparr>fb_totalComments = 1, fb_positive = 1, fb_suggestions = 1, fb_excellent = [[(key_rating, ''5''), (key_comment, ''Muito bom'')]], fb_good = [], fb_suggestionList = [[(key_rating, ''5''), (key_comment, ''Muito bom'')]]\<rparr>)
   \<and> (\<exists>ins. renderInsights [[(key_rating, ''5''), (key_comment, ''Muito bom'')]] None 0 None 0 0 0 = Inr ins \<and> ins_suggestions ins = 1)"
proof -
  have r: "renderFeedbackAnalysis [[(key_rating, ''5''), (key_comment, ''Muito bom'')]] = Inr \<lparr>fb_totalComments = 1, fb_positive = 1, fb_suggestions = 1, fb_excellent = [[(key_rating, ''5''), (key_comment, ''Muito bom'')]], fb_good = [], fb_suggestionList = [[(key_rating, ''5''), (key_comment, ''Muito bom'')]]\<rparr>"
    by (rule sample_feedback)
  have "fb_totalComments \<lparr>fb_totalComments = 1, fb_positive = 1, fb_suggestions = 1, fb_excellent = [[(key_rating, ''5''), (key_comment, ''Muito bom'')]], fb_good = [], fb_suggestionList = [[(key_rating, ''5''), (key_comment, ''Muito bom'')]]\<rparr> = 1" by (simp only: feedback.select_convs)
  then show ?thesis using insights_comment_total[OF r, of None 0 None 0 0 0] r by simp
qed

end
