(* ===== verification/Loader.thy ===== *)
theory Loader
  imports CsvParser Dashboard Feedback
begin

text \<open>
  The page's one run: \<open>loadSurveyData\<close> (\<open>src/script.js\<close> lines 34 to 50), called
  once on \<open>DOMContentLoaded\<close> (line 368), fetches \<open>survey.csv\<close>, parses it and
  calls \<open>renderDashboard\<close> (lines 67 to 119), which computes the statistics, sets
  up the table, and runs the comment analysis and the insight cards in this order.
  Everything that throws inside the \<open>try\<close> block (a failed fetch, the
  \<open>Error\<close> of a non-2xx status, a \<open>TypeError\<close> of \<open>parseCSV\<close> or of
  \<open>renderDashboard\<close>) is caught and shown as "Erro ao carregar dados"; the model
  returns it as \<open>Inl\<close> of \<open>load_error\<close>. The table globals are state: the model
  returns them beside the outcome, since \<open>setupTable\<close> has already run when the
  comment analysis throws.
\<close>

record dashboard_view =
  dv_stats :: dashboard
  dv_feedback :: feedback
  dv_insights :: insights

definition renderDashboard ::
  "js_env \<Rightarrow> jsobj list \<Rightarrow> table_state \<Rightarrow> (js_error + dashboard_view) \<times> table_state" where
  "renderDashboard env data st =
     (case dashboard_stats env data of
        Inl e \<Rightarrow> (Inl e, st)
      | Inr ds \<Rightarrow>
          (let st' = setupTable data st
           in case renderFeedbackAnalysis data of
                Inl e \<Rightarrow> (Inl e, st')
              | Inr fb \<Rightarrow>
                  (let (yes, partial, no) = dash_expectations ds
                   in case renderInsights data (dash_avgRating ds) (dash_satisfaction ds)
                             (dash_avgSchedule ds) yes partial no of
                        Inl e \<Rightarrow> (Inl e, st')
                      | Inr ins \<Rightarrow> (Inr \<lparr>dv_stats = ds, dv_feedback = fb, dv_insights = ins\<rparr>, st'))))"

text \<open>What \<open>fetch('survey.csv')\<close> gives: a network failure (the promise rejects),
  or a response with its status, status text and body text.\<close>

datatype fetch_result = NetworkError | Response nat jsstr jsstr

datatype load_error = FetchFailed | HttpError nat jsstr | ScriptError js_error

text \<open>\<open>resp.ok\<close>: the status is in the range 200 to 299.\<close>

definition resp_ok :: "nat \<Rightarrow> bool" where
  "resp_ok status \<longleftrightarrow> 200 \<le> status \<and> status \<le> 299"

definition loadSurveyData ::
  "js_env \<Rightarrow> fetch_result \<Rightarrow> table_state \<Rightarrow> (load_error + dashboard_view) \<times> table_state" where
  "loadSurveyData env fr st =
     (case fr of
        NetworkError \<Rightarrow> (Inl FetchFailed, st)
      | Response status statusText body \<Rightarrow>
          (if \<not> resp_ok status then (Inl (HttpError status statusText), st)
           else case parseCSV body of
                  Inl e \<Rightarrow> (Inl (ScriptError e), st)
                | Inr data \<Rightarrow>
                    (case renderDashboard env data st of
                       (Inl e, st') \<Rightarrow> (Inl (ScriptError e), st')
                     | (Inr v, st') \<Rightarrow> (Inr v, st'))))"

text \<open>Line 368: \<open>loadSurveyData\<close> runs once, on \<open>DOMContentLoaded\<close>, from the
  globals of line 171.\<close>

definition pageLoad :: "js_env \<Rightarrow> fetch_result \<Rightarrow> (load_error + dashboard_view) \<times> table_state" where
  "pageLoad env fr = loadSurveyData env fr initial_table"

text \<open>The columns whose absence \<open>renderDashboard\<close> does not survive.\<close>

definition has_required_columns :: "jsobj \<Rightarrow> bool" where
  "has_required_columns d \<longleftrightarrow> obj_get d key_timestamp \<noteq> None \<and> obj_get d key_comment \<noteq> None"

subsection \<open>Lemmas\<close>

lemma survey_dates_Inr_iff:
  "(\<exists>dates. survey_dates env data = Inr dates) \<longleftrightarrow> list_all (\<lambda>d. obj_get d key_timestamp \<noteq> None) data"
  by (simp add: survey_dates_def)

lemma dashboard_stats_Inl_iff:
  "isl (dashboard_stats env data) \<longleftrightarrow> \<not> list_all (\<lambda>d. obj_get d key_timestamp \<noteq> None) data"
  by (auto simp: dashboard_stats_def survey_dates_def Let_def split: prod.split)

lemma dashboard_stats_expectations:
  "dashboard_stats env data = Inr ds \<Longrightarrow> dash_expectations ds = expectation_counts data"
  by (auto simp: dashboard_stats_def Let_def split: sum.splits prod.splits)

lemma dashboard_stats_total:
  "dashboard_stats env data = Inr ds \<Longrightarrow> dash_total ds = length data"
  by (auto simp: dashboard_stats_def Let_def split: sum.splits prod.splits)

lemma renderFeedbackAnalysis_Inl_iff:
  "isl (renderFeedbackAnalysis data) \<longleftrightarrow> \<not> list_all (\<lambda>d. obj_get d key_comment \<noteq> None) data"
  by (simp add: renderFeedbackAnalysis_def Let_def)

lemma renderInsights_Inr:
  "list_all (\<lambda>d. obj_get d key_comment \<noteq> None) data \<Longrightarrow>
   \<exists>ins. renderInsights data a r b y p n = Inr ins"
  by (simp add: renderInsights_def)

lemma renderDashboard_cases:
  obtains (stats) "\<not> list_all (\<lambda>d. obj_get d key_timestamp \<noteq> None) data"
    "renderDashboard env data st = (Inl TypeError, st)"
  | (feedback) ds where "dashboard_stats env data = Inr ds"
    "\<not> list_all (\<lambda>d. obj_get d key_comment \<noteq> None) data"
    "renderDashboard env data st = (Inl TypeError, setupTable data st)"
  | (ok) ds fb ins where "list_all has_required_columns data"
    "dashboard_stats env data = Inr ds" "renderFeedbackAnalysis data = Inr fb"
    "renderDashboard env data st = (Inr \<lparr>dv_stats = ds, dv_feedback = fb, dv_insights = ins\<rparr>, setupTable data st)"
proof (cases "list_all (\<lambda>d. obj_get d key_timestamp \<noteq> None) data")
  case False
  then have "renderDashboard env data st = (Inl TypeError, st)"
    by (simp add: renderDashboard_def dashboard_stats_def survey_dates_def Let_def)
  with False stats show ?thesis by blast
next
  case ts: True
  then obtain ds where ds: "dashboard_stats env data = Inr ds"
    using dashboard_stats_Inl_iff[of env data] by (cases "dashboard_stats env data") auto
  show ?thesis
  proof (cases "list_all (\<lambda>d. obj_get d key_comment \<noteq> None) data")
    case False
    then have "renderDashboard env data st = (Inl TypeError, setupTable data st)"
      by (simp add: renderDashboard_def ds renderFeedbackAnalysis_def)
    with False ds feedback show ?thesis by blast
  next
    case cm: True
    then obtain fb where fb: "renderFeedbackAnalysis data = Inr fb"
      using renderFeedbackAnalysis_Inl_iff[of data] by (cases "renderFeedbackAnalysis data") auto
    obtain yes partial no where e: "dash_expectations ds = (yes, partial, no)"
      by (cases "dash_expectations ds") auto
    obtain ins where ins: "renderInsights data (dash_avgRating ds) (dash_satisfaction ds)
                             (dash_avgSchedule ds) yes partial no = Inr ins"
      using renderInsights_Inr[OF cm] by blast
    have "renderDashboard env data st
          = (Inr \<lparr>dv_stats = ds, dv_feedback = fb, dv_insights = ins\<rparr>, setupTable data st)"
      by (simp add: renderDashboard_def ds fb e ins)
    moreover have "list_all has_required_columns data"
      using ts cm by (simp add: has_required_columns_def list_all_iff)
    ultimately show ?thesis using ds fb ok by blast
  qed
qed

lemma loadSurveyData_Inr:
  assumes "loadSurveyData env fr st = (Inr v, st')"
  obtains status statusText body data where "fr = Response status statusText body"
    "resp_ok status" "parseCSV body = Inr data" "list_all has_required_columns data"
    "dashboard_stats env data = Inr (dv_stats v)" "renderFeedbackAnalysis data = Inr (dv_feedback v)"
    "st' = setupTable data st"
proof -
  obtain status statusText body where fr: "fr = Response status statusText body"
    using assms by (cases fr) (auto simp: loadSurveyData_def)
  have rok: "resp_ok status" using assms fr by (auto simp: loadSurveyData_def split: if_splits)
  obtain data where p: "parseCSV body = Inr data"
    using assms fr rok by (cases "parseCSV body") (auto simp: loadSurveyData_def)
  have r: "renderDashboard env data st = (Inr v, st')"
    using assms fr rok p by (auto simp: loadSurveyData_def split: prod.splits sum.splits)
  show ?thesis
  proof (cases rule: renderDashboard_cases[of data env st])
    case (ok ds fb ins)
    with r have "v = \<lparr>dv_stats = ds, dv_feedback = fb, dv_insights = ins\<rparr>" and "st' = setupTable data st"
      by simp_all
    with ok fr rok p that show ?thesis by simp
  qed (use r in simp_all)
qed

lemma loadSurveyData_ok:
  assumes "resp_ok status" and "parseCSV body = Inr data" and "list_all has_required_columns data"
  shows "\<exists>v. loadSurveyData env (Response status statusText body) st = (Inr v, setupTable data st)"
proof (cases rule: renderDashboard_cases[of data env st])
  case (ok ds fb ins)
  with assms show ?thesis by (simp add: loadSurveyData_def)
qed (use assms in \<open>auto simp: list_all_iff has_required_columns_def\<close>)

subsection \<open>Properties of the page load\<close>

text \<open>
  C3. Loading fails (the page shows "Erro ao carregar dados") exactly when the
  response status is not 2xx, or the text has no non-blank line, or some response
  lacks the timestamp or the comment column: a missing column is not absorbed but
  fails the load after the fetch succeeded.
\<close>

theorem loadSurveyData_fails_iff:
  "isl (fst (loadSurveyData env (Response status statusText body) st)) \<longleftrightarrow>
     \<not> resp_ok status
     \<or> (case parseCSV body of Inl e \<Rightarrow> True | Inr data \<Rightarrow> \<not> list_all has_required_columns data)"
proof (cases "resp_ok status")
  case rok: True
  show ?thesis
  proof (cases "parseCSV body")
    case (Inr data)
    show ?thesis
    proof (cases rule: renderDashboard_cases[of data env st])
      case stats
      then show ?thesis using rok Inr by (auto simp: loadSurveyData_def list_all_iff has_required_columns_def)
    next
      case (feedback ds)
      then show ?thesis using rok Inr by (auto simp: loadSurveyData_def list_all_iff has_required_columns_def)
    next
      case (ok ds fb ins)
      then show ?thesis using rok Inr by (simp add: loadSurveyData_def)
    qed
  qed (simp add: loadSurveyData_def rok)
qed (simp add: loadSurveyData_def)

theorem loadSurveyData_fails_iff_witness:
  "resp_ok 200 \<and> parseCSV (''a,b'' @ [LF] @ ''x,y'') = Inr [[(''a'', ''x''), (''b'', ''y'')]]
   \<and> isl (fst (loadSurveyData \<lparr>locale_compare = (\<lambda>a b. 0), date_value = (\<lambda>d. NaN)\<rparr> (Response 200 ''OK'' (''a,b'' @ [LF] @ ''x,y'')) initial_table))"
proof -
  have p: "parseCSV (''a,b'' @ [LF] @ ''x,y'') = Inr [[(''a'', ''x''), (''b'', ''y'')]]"
    by code_simp
  have ok: "resp_ok 200" by (simp add: resp_ok_def)
  have "\<not> list_all has_required_columns [[(''a'', ''x''), (''b'', ''y'')]]"
    by (simp add: has_required_columns_def obj_get_def key_timestamp_def)
  then show ?thesis
    using loadSurveyData_fails_iff[of "\<lparr>locale_compare = (\<lambda>a b. 0), date_value = (\<lambda>d. NaN)\<rparr>" 200 "''OK''" "''a,b'' @ [LF] @ ''x,y''" initial_table] p ok
    by simp
qed

text \<open>
  C13. The effects of a failed load depend on where it fails: when every response has
  a timestamp but one lacks the comment column, the comment analysis throws after
  \<open>setupTable\<close> has run, so the page shows the load error while the table globals
  already hold the parsed responses, on page 1.
\<close>

theorem loadSurveyData_comment_error_state:
  assumes "resp_ok status" and "parseCSV body = Inr data"
    and "list_all (\<lambda>d. obj_get d key_timestamp \<noteq> None) data"
    and "\<not> list_all (\<lambda>d. obj_get d key_comment \<noteq> None) data"
  shows "loadSurveyData env (Response status statusText body) st
         = (Inl (ScriptError TypeError), setupTable data st)"
proof (cases rule: renderDashboard_cases[of data env st])
  case (feedback ds)
  with assms show ?thesis by (simp add: loadSurveyData_def)
qed (use assms in \<open>auto simp: list_all_iff has_required_columns_def\<close>)

theorem loadSurveyData_comment_error_state_witness:
  "resp_ok 200
   \<and> parseCSV (key_timestamp @ [LF] @ ''2025/08/04'') = Inr [[(key_timestamp, ''2025/08/04'')]]
   \<and> list_all (\<lambda>d. obj_get d key_timestamp \<noteq> None) [[(key_timestamp, ''2025/08/04'')]]
   \<and> \<not> list_all (\<lambda>d. obj_get d key_comment \<noteq> None) [[(key_timestamp, ''2025/08/04'')]]
   \<and> loadSurveyData \<lparr>locale_compare = (\<lambda>a b. 0), date_value = (\<lambda>d. NaN)\<rparr> (Response 200 ''OK'' (key_timestamp @ [LF] @ ''2025/08/04'')) initial_table
     = (Inl (ScriptError TypeError), setupTable [[(key_timestamp, ''2025/08/04'')]] initial_table)"
proof -
  have p: "parseCSV (key_timestamp @ [LF] @ ''2025/08/04'') = Inr [[(key_timestamp, ''2025/08/04'')]]"
    unfolding key_timestamp_def by code_simp
  have ok: "resp_ok 200" by (simp add: resp_ok_def)
  have t: "list_all (\<lambda>d. obj_get d key_timestamp \<noteq> None) [[(key_timestamp, ''2025/08/04'')]]"
    by (simp add: obj_get_def)
  have c: "\<not> list_all (\<lambda>d. obj_get d key_comment \<noteq> None) [[(key_timestamp, ''2025/08/04'')]]"
    by (simp add: obj_get_def key_timestamp_def key_comment_def)
  show ?thesis using loadSurveyData_comment_error_state[OF ok p t c] ok p t c by simp
qed

end
