(* ===== verification/TableSpec.thy ===== *)
theory TableSpec
  imports Table
begin

text \<open>
  The contract of the table view controller as the specification states it
  (section 4.2: \<open>setSearch\<close>, \<open>setFilter\<close>, \<open>setPage\<close>, filtering, page size 10),
  as an abstract machine over the records, the search term as the user typed it, the
  filter value and the page; and the proof that the table of \<open>src/script.js\<close>
  (theory \<open>Table\<close>) refines it. The abstract machine keeps the term as typed and
  compares case-insensitively; the code lower-cases the term once, in the input
  listener. The specification leaves the page after a new search or filter open;
  the abstract machine returns to page 1, as the code does. Sorting is outside the
  abstract machine: the specification fixes no order on equal keys.

  Also here: the loop of \<open>renderPagination\<close> (its termination is proved where it
  is defined, in \<open>Table\<close>) and the liveness of paging: every row that passes the
  filter can be brought on screen by one click on a page button.
\<close>

record spec_table =
  sp_records :: "jsobj list"
  sp_search :: jsstr
  sp_filter :: jsstr
  sp_page :: nat

datatype spec_op = SetSearch jsstr | SetFilter jsstr | SetPage nat

text \<open>A record passes when (a) the filter value is empty or the filter column equals
  it exactly, a missing column reading as the empty string, and (b) the term is empty
  or one of the display columns contains it, ignoring case.\<close>

definition spec_passes :: "jsstr \<Rightarrow> jsstr \<Rightarrow> jsobj \<Rightarrow> bool" where
  "spec_passes term f r \<longleftrightarrow>
     (f = [] \<or> obj_get_or_empty r key_rating = f)
     \<and> (term = [] \<or> list_ex (\<lambda>col. js_includes (js_lower (obj_get_or_empty r (col_key col)))
                                               (js_lower term)) tableColumns)"

definition spec_filtered :: "spec_table \<Rightarrow> jsobj list" where
  "spec_filtered a = filter (spec_passes (sp_search a) (sp_filter a)) (sp_records a)"

definition spec_page_count :: "spec_table \<Rightarrow> nat" where
  "spec_page_count a = (length (spec_filtered a) + 9) div 10"

definition spec_page :: "spec_table \<Rightarrow> jsobj list" where
  "spec_page a = take 10 (drop (10 * (sp_page a - 1)) (spec_filtered a))"

fun spec_step :: "spec_table \<Rightarrow> spec_op \<Rightarrow> spec_table" where
  "spec_step a (SetSearch t) = a\<lparr>sp_search := t, sp_page := 1\<rparr>"
| "spec_step a (SetFilter f) = a\<lparr>sp_filter := f, sp_page := 1\<rparr>"
| "spec_step a (SetPage n) = a\<lparr>sp_page := n\<rparr>"

text \<open>The caller requests valid pages only.\<close>

fun spec_valid :: "spec_table \<Rightarrow> spec_op \<Rightarrow> bool" where
  "spec_valid a (SetPage n) = (1 \<le> n \<and> n \<le> spec_page_count a)"
| "spec_valid a op = True"

definition spec_init :: "jsobj list \<Rightarrow> spec_table" where
  "spec_init data = \<lparr>sp_records = data, sp_search = [], sp_filter = [], sp_page = 1\<rparr>"

text \<open>Each abstract operation is one event of the page.\<close>

fun op_event :: "spec_op \<Rightarrow> table_event" where
  "op_event (SetSearch t) = SearchInput t"
| "op_event (SetFilter f) = FilterChange f"
| "op_event (SetPage n) = PageClick n"

text \<open>The simulation relation: the same records, the stored term is the typed term in
  lower case, the same filter and page.\<close>

definition spec_rel :: "table_state \<Rightarrow> spec_table \<Rightarrow> bool" where
  "spec_rel c a \<longleftrightarrow>
     tableData c = sp_records a \<and> currentSearch c = js_lower (sp_search a)
     \<and> currentFilter c = sp_filter a \<and> currentPage c = int (sp_page a) \<and> 1 \<le> sp_page a"

subsection \<open>Lemmas\<close>

lemma tableColumns_rating: "col_key (tableColumns ! 3) = key_rating"
  by (simp add: tableColumns_def)

lemma filter_value_match:
  "f \<noteq> [] \<Longrightarrow> obj_get r k = Some f \<longleftrightarrow> obj_get_or_empty r k = f"
  by (auto simp: obj_get_or_empty_def split: option.split)

lemma row_matches_spec:
  assumes "spec_rel c a"
  shows "row_matches c r = spec_passes (sp_search a) (sp_filter a) r"
  using assms filter_value_match[of "sp_filter a" r key_rating]
  by (auto simp: row_matches_def spec_passes_def spec_rel_def tableColumns_rating Let_def)

lemma filtered_rows_spec: "spec_rel c a \<Longrightarrow> filtered_rows c = spec_filtered a"
  unfolding filtered_rows_def spec_filtered_def
  by (auto simp: spec_rel_def row_matches_spec intro: filter_cong)

lemma page_rows_spec:
  assumes "spec_rel c a"
  shows "page_rows c = spec_page a"
proof -
  have "1 \<le> currentPage c" and "nat (currentPage c) = sp_page a"
    using assms by (simp_all add: spec_rel_def)
  then show ?thesis
    using page_rows_eq[of c] filtered_rows_spec[OF assms] by (simp add: spec_page_def)
qed

lemma page_count_spec:
  "spec_rel c a \<Longrightarrow> page_count (length (filtered_rows c)) = spec_page_count a"
  by (simp add: page_count_eq spec_page_count_def filtered_rows_spec)

lemma count_eq_upt:
  "length (filter (\<lambda>i. int i = c) [a..<b]) = (if int a \<le> c \<and> c < int b then 1 else 0)"
  by (induction b) auto

lemma pagination_loop_eq:
  "pagination_loop cur pages i = map (\<lambda>j. (j, int j = cur)) [i..<Suc pages]"
  by (induction cur pages i rule: pagination_loop.induct) (simp add: upt_rec)

lemma spec_rel_init: "spec_rel (setupTable data initial_table) (spec_init data)"
  by (simp add: spec_rel_def setupTable_def initial_table_def spec_init_def js_lower_def)

lemma page_of_index:
  assumes "j < length xs"
  shows "xs ! j \<in> set (take 10 (drop (10 * (j div 10)) xs))"
proof -
  have "j - 10 * (j div 10) < 10" by simp
  moreover have "drop (10 * (j div 10)) xs ! (j - 10 * (j div 10)) = xs ! j"
    using assms by simp
  moreover have "j - 10 * (j div 10) < length (drop (10 * (j div 10)) xs)"
    using assms by simp
  ultimately show ?thesis by (metis in_set_conv_nth length_take min_less_iff_conj nth_take)
qed

lemma page_of_index_bound: "j < n \<Longrightarrow> Suc (j div 10) \<le> page_count n"
  by (simp add: page_count_eq)

subsection \<open>Properties of the contract\<close>

text \<open>
  C6. The table refines the contract of the specification: from related states,
  every valid abstract operation is an event the page can raise, the code's handler
  takes it to a state related to the abstract result, and the filtered rows and the
  page shown are the abstract ones.
\<close>

theorem table_refines_spec:
  assumes "spec_rel c a" and "spec_valid a op"
  shows "filtered_rows c = spec_filtered a \<and> page_rows c = spec_page a
         \<and> event_enabled c (op_event op)
         \<and> (\<exists>c'. table_step env c (op_event op) = Inr c' \<and> spec_rel c' (spec_step a op))"
proof -
  have "event_enabled c (op_event op)"
    using assms page_count_spec[OF assms(1)] by (cases op) simp_all
  moreover have "\<exists>c'. table_step env c (op_event op) = Inr c' \<and> spec_rel c' (spec_step a op)"
    using assms by (cases op) (auto simp: spec_rel_def)
  ultimately show ?thesis
    using filtered_rows_spec[OF assms(1)] page_rows_spec[OF assms(1)] by blast
qed

theorem table_refines_spec_witness:
  "spec_rel (setupTable [[(key_name, ''Ana'')]] initial_table) (spec_init [[(key_name, ''Ana'')]])
   \<and> spec_valid (spec_init [[(key_name, ''Ana'')]]) (SetSearch ''ANA'')
   \<and> spec_filtered (spec_init [[(key_name, ''Ana'')]]) = [[(key_name, ''Ana'')]]
   \<and> (\<exists>c'. table_step \<lparr>locale_compare = (\<lambda>a b. 0), date_value = (\<lambda>d. NaN)\<rparr> (setupTable [[(key_name, ''Ana'')]] initial_table) (SearchInput ''ANA'') = Inr c'
          \<and> spec_rel c' (spec_step (spec_init [[(key_name, ''Ana'')]]) (SetSearch ''ANA'')))"
proof -
  have r: "spec_rel (setupTable [[(key_name, ''Ana'')]] initial_table) (spec_init [[(key_name, ''Ana'')]])" by (rule spec_rel_init)
  have v: "spec_valid (spec_init [[(key_name, ''Ana'')]]) (SetSearch ''ANA'')" by simp
  have "spec_filtered (spec_init [[(key_name, ''Ana'')]]) = [[(key_name, ''Ana'')]]"
    by (simp add: spec_filtered_def spec_init_def spec_passes_def)
  with table_refines_spec[OF r v, of "\<lparr>locale_compare = (\<lambda>a b. 0), date_value = (\<lambda>d. NaN)\<rparr>"] r v show ?thesis by simp
qed

text \<open>
  C31. The loop of \<open>renderPagination\<close> terminates and draws the buttons 1 to the
  page count, in order; exactly one of them is active when the current page is one
  of them, and none otherwise.
\<close>

theorem renderPagination_buttons:
  "renderPagination st cnt = map (\<lambda>i. (i, int i = currentPage st)) [1..<page_count cnt + 1]
   \<and> length (filter snd (renderPagination st cnt))
     = (if 1 \<le> currentPage st \<and> currentPage st \<le> int (page_count cnt) then 1 else 0)"
proof -
  let ?c = "currentPage st" and ?n = "page_count cnt"
  have e: "renderPagination st cnt = map (\<lambda>i. (i, int i = ?c)) [1..<?n + 1]"
    unfolding renderPagination_def pagination_loop_eq by simp
  have "filter snd (map (\<lambda>i. (i, int i = ?c)) [1..<?n + 1])
        = map (\<lambda>i. (i, int i = ?c)) (filter (\<lambda>i. int i = ?c) [1..<?n + 1])"
    by (simp only: filter_map comp_def snd_conv)
  then have "length (filter snd (renderPagination st cnt))
             = length (filter (\<lambda>i. int i = ?c) [1..<?n + 1])"
    by (simp only: e length_map)
  also have "\<dots> = (if int 1 \<le> ?c \<and> ?c < int (?n + 1) then 1 else 0)"
    by (rule count_eq_upt)
  also have "\<dots> = (if 1 \<le> ?c \<and> ?c \<le> int ?n then 1 else 0)"
    by auto
  finally show ?thesis using e by blast
qed

text \<open>
  C30. Liveness of paging: in every reachable state, each row that passes the search
  and the filter is brought on screen by one click on a page button the page offers,
  and the state after the click is again reachable.
\<close>

theorem row_reachable_on_page:
  assumes "table_reach env data st" and "r \<in> set (filtered_rows st)"
  shows "\<exists>p st'. event_enabled st (PageClick p) \<and> table_step env st (PageClick p) = Inr st'
                \<and> r \<in> set (page_rows st') \<and> table_reach env data st'"
proof -
  obtain j where j: "j < length (filtered_rows st)" and r: "filtered_rows st ! j = r"
    using assms(2) by (metis in_set_conv_nth)
  let ?st' = "st\<lparr>currentPage := int (Suc (j div 10))\<rparr>"
  have en: "event_enabled st (PageClick (Suc (j div 10)))"
    using page_of_index_bound[OF j] by simp
  have step: "table_step env st (PageClick (Suc (j div 10))) = Inr ?st'" by simp
  have "page_rows ?st' = take 10 (drop (10 * (j div 10)) (filtered_rows st))"
    using page_rows_at[where st=st and q="j div 10"] by simp
  then have "r \<in> set (page_rows ?st')" using page_of_index[OF j] r by simp
  moreover have "table_reach env data ?st'"
    using assms(1) en step by (rule table_reach.step)
  ultimately show ?thesis using en step by blast
qed

theorem row_reachable_on_page_witness:
  "table_reach \<lparr>locale_compare = (\<lambda>a b. 0), date_value = (\<lambda>d. NaN)\<rparr> (replicate 11 [(''n'', ''v'')]) (setupTable (replicate 11 [(''n'', ''v'')]) initial_table)
   \<and> [(''n'', ''v'')] \<in> set (filtered_rows (setupTable (replicate 11 [(''n'', ''v'')]) initial_table))
   \<and> (\<exists>p st'. event_enabled (setupTable (replicate 11 [(''n'', ''v'')]) initial_table) (PageClick p)
        \<and> table_step \<lparr>locale_compare = (\<lambda>a b. 0), date_value = (\<lambda>d. NaN)\<rparr> (setupTable (replicate 11 [(''n'', ''v'')]) initial_table) (PageClick p) = Inr st'
        \<and> [(''n'', ''v'')] \<in> set (page_rows st') \<and> table_reach \<lparr>locale_compare = (\<lambda>a b. 0), date_value = (\<lambda>d. NaN)\<rparr> (replicate 11 [(''n'', ''v'')]) st')"
proof -
  have reach: "table_reach \<lparr>locale_compare = (\<lambda>a b. 0), date_value = (\<lambda>d. NaN)\<rparr> (replicate 11 [(''n'', ''v'')]) (setupTable (replicate 11 [(''n'', ''v'')]) initial_table)"
    by (rule table_reach.init)
  have "[(''n'', ''v'')] \<in> set (filtered_rows (setupTable (replicate 11 [(''n'', ''v'')]) initial_table))"
    by (simp add: filtered_rows_def row_matches_def setupTable_def initial_table_def Let_def)
  with row_reachable_on_page[OF reach this] reach show ?thesis by blast
qed

end
