(* ===== verification/Spec2Isabelle.thy ===== *)
theory Spec2Isabelle
  imports Export Loader TableSpec
begin

text \<open>
  A verification library for \<open>src/script.js\<close>, the survey dashboard of the
  repository. On \<open>DOMContentLoaded\<close> the page runs \<open>loadSurveyData\<close> once: it
  fetches \<open>survey.csv\<close>, parses it (\<open>parseCSV\<close>) and calls \<open>renderDashboard\<close>,
  which computes the summary figures and charts, sets up the table of responses
  (search, rating filter, pagination, sorting by column, \<open>setupTable\<close>,
  \<open>renderTable\<close>, \<open>renderPagination\<close>, \<open>sortTable\<close>), analyses the comments
  (\<open>renderFeedbackAnalysis\<close>, \<open>renderFeedbackList\<close>) and fills the insight cards
  (\<open>renderInsights\<close>). \<open>exportToCSV\<close> writes the filtered rows back as CSV.

  Theories, in import order, and what each models:
  \<^item> \<open>Prelude\<close>: the JavaScript string primitives the program calls (\<open>trim\<close>,
    \<open>toLowerCase\<close>, \<open>includes\<close>, \<open>join\<close>, the class \<open>\d\<close>) on strings of
    Latin-1 code units, the one exception the code raises (\<open>TypeError\<close>), and the
    shared lemmas on them;
  \<^item> \<open>JsObject\<close>: a plain object as its own properties in creation order
    (\<open>obj_set\<close>, \<open>obj_get\<close>, \<open>obj_keys\<close> with the array-index-first order of
    \<open>Object.keys\<close>);
  \<^item> \<open>JsNumber\<close>: StringToNumber and the sign of a subtraction, as \<open>sortTable\<close>
    uses them (exact rationals, NaN and the infinities);
  \<^item> \<open>Survey\<close>: the column keys, \<open>tableColumns\<close>, \<open>getNumber\<close>, \<open>getDate\<close>;
  \<^item> \<open>Table\<close>: the table globals as the record \<open>table_state\<close>; the listeners of
    \<open>setupTable\<close>, the page buttons and \<open>sortTable\<close> as \<open>table_step\<close> over
    \<open>table_event\<close>; \<open>renderTable\<close> and \<open>renderPagination\<close> (its loop a
    \<open>function\<close> with a measure) as the view; reachability \<open>table_reach\<close> as an
    inductive relation; the sort as a stable insertion sort;
  \<^item> \<open>CsvParser\<close>: \<open>parseCSV\<close>, step by step (line split, blank-line filter, row
    prefix, the look-ahead header split, the quote strip, the character scan of data
    lines, \<open>header.reduce\<close>); the \<open>Inl\<close> branch is its \<open>TypeError\<close> on an
    input without a non-blank line;
  \<^item> \<open>Export\<close>: \<open>exportToCSV\<close> as the text it downloads (\<open>None\<close> when nothing
    matches);
  \<^item> \<open>Dashboard\<close>: the figures \<open>renderDashboard\<close> computes before
    \<open>setupTable\<close> and its chart helpers, as the record \<open>dashboard\<close>;
  \<^item> \<open>Feedback\<close>: the comment analysis with \<open>parseInt\<close> (ECMA-262), the
    HTML text of the feedback items, the insight cards;
  \<^item> \<open>Loader\<close>: \<open>renderDashboard\<close> composed in the source order and
    \<open>loadSurveyData\<close> over the fetch outcome, returning the outcome (\<open>Inl\<close> of
    \<open>load_error\<close> for whatever the \<open>catch\<close> shows) and the table globals;
    \<open>pageLoad\<close> is the run from the initial globals;
  \<^item> \<open>TableSpec\<close>: the contract of the specification's table view controller as an
    abstract machine, with the refinement proof, the pagination loop and the
    liveness of paging.

  What the lemmas show. Parser: one record per non-blank line after the header,
  failure exactly on a text without a non-blank line, quoted fields with commas,
  the row prefix ignored, the header split agreeing with the data-line scan on
  balanced quotes, each record mapping the i-th key to the i-th field, well-formed
  records with trimmed keys and values. Export: re-parsing an export gives the rows
  back with their double quotes removed (\<open>export_parse_roundtrip\<close>); its filter
  equals the table's on rows whose keys are table columns. Table: the invariant of
  every reachable state (a permutation of the data, a valid page), no empty page
  while rows match, pages partitioning the filtered rows, the page count, the sort
  order after one and two clicks on a numeric column, the refinement of the specification
  (\<open>table_refines_spec\<close>), every matching row one click away. Dashboard: bounds of
  the satisfaction rate and of the averages, the bar charts, the age distribution,
  the period count. Feedback: which responses each list
  shows and that the insight count equals the comment total. Across components: a
  load fails exactly on a bad status, an empty text or a missing timestamp or
  comment column (\<open>loadSurveyData_fails_iff\<close>), a successful load shows the
  first ten parsed records, their count and one button per page
  (\<open>load_shows_first_page\<close>), and the expectation
  counts are zero on every successful load (\<open>load_expectations_always_zero\<close>,
  a defect of line 100).

  Bounds and fuel. Every loop of the program walks a finite list or string, so each
  recursive definition of the model is structural except the pagination loop, whose
  termination is proved with the measure \<open>pages + 1 - i\<close>: no fuel is needed.
  Floating-point values are quotients of integers below \<open>2^32\<close> and are modelled
  as exact rationals; \<open>Math.round(100 * s / n)\<close> is exact in that range (see
  \<open>Dashboard\<close>).

  Not modelled: the DOM writes themselves (the model returns the values the page
  shows, and the HTML text only where it is built from data, the feedback items),
  \<open>toFixed\<close> and \<open>toLocaleDateString\<close> digits, the \<open>Blob\<close> download of the
  export, the host's collation order (\<open>localeCompare\<close>) and the time value of
  \<open>new Date\<close> (parameters in \<open>js_env\<close>), and code units above 255.
\<close>

subsection \<open>Properties across components\<close>

lemma filtered_rows_initial: "filtered_rows (setupTable data initial_table) = data"
  by (simp add: filtered_rows_def setupTable_def initial_table_def row_matches_def)

lemma sample_load:
  "parseCSV (key_timestamp @ [COMMA] @ key_expectations @ [COMMA] @ key_comment @ [LF] @ ''2025/08/04,Sim,Bom'') = Inr [[(key_timestamp, ''2025/08/04''), (key_expectations, ''Sim''), (key_comment, ''Bom'')]]"
  unfolding key_timestamp_def key_expectations_def key_comment_def by code_simp

lemma sample_load_ok:
  "\<exists>v. loadSurveyData env (Response 200 ''OK'' (key_timestamp @ [COMMA] @ key_expectations @ [COMMA] @ key_comment @ [LF] @ ''2025/08/04,Sim,Bom'')) st = (Inr v, setupTable [[(key_timestamp, ''2025/08/04''), (key_expectations, ''Sim''), (key_comment, ''Bom'')]] st)"
proof -
  have "list_all has_required_columns [[(key_timestamp, ''2025/08/04''), (key_expectations, ''Sim''), (key_comment, ''Bom'')]]"
    by (simp add: has_required_columns_def obj_get_def)
  then show ?thesis using sample_load by (intro loadSurveyData_ok) (simp_all add: resp_ok_def)
qed

text \<open>
  C2. On every successful load the dashboard counts no "Sim", no "Parcial" and no
  "Nao" answer: the parsed header keys are trimmed, and the statistics read
  the expectations column under its key with a trailing space, which no parsed
  record has.
\<close>

theorem load_expectations_always_zero:
  assumes "loadSurveyData env fr st = (Inr v, st')"
  shows "dash_expectations (dv_stats v) = (0, 0, 0)"
proof -
  obtain status statusText body data where p: "parseCSV body = Inr data"
    and ds: "dashboard_stats env data = Inr (dv_stats v)"
    using loadSurveyData_Inr[OF assms] by metis
  have "\<forall>d\<in>set data. \<forall>k\<in>fst ` set d. trimmed k"
    using parseCSV_keys_trimmed[OF p] by blast
  then have "expectation_counts data = (0, 0, 0)"
    by (rule expectation_counts_trimmed_keys)
  with dashboard_stats_expectations[OF ds] show ?thesis by simp
qed

theorem load_expectations_always_zero_witness:
  "obj_get [(key_timestamp, ''2025/08/04''), (key_expectations, ''Sim''), (key_comment, ''Bom'')] key_expectations = Some ''Sim''
   \<and> (\<exists>v st'. loadSurveyData \<lparr>locale_compare = (\<lambda>a b. 0), date_value = (\<lambda>d. NaN)\<rparr> (Response 200 ''OK'' (key_timestamp @ [COMMA] @ key_expectations @ [COMMA] @ key_comment @ [LF] @ ''2025/08/04,Sim,Bom'')) initial_table = (Inr v, st')
              \<and> dash_expectations (dv_stats v) = (0, 0, 0))"
proof -
  obtain v where v: "loadSurveyData \<lparr>locale_compare = (\<lambda>a b. 0), date_value = (\<lambda>d. NaN)\<rparr> (Response 200 ''OK'' (key_timestamp @ [COMMA] @ key_expectations @ [COMMA] @ key_comment @ [LF] @ ''2025/08/04,Sim,Bom'')) initial_table
                     = (Inr v, setupTable [[(key_timestamp, ''2025/08/04''), (key_expectations, ''Sim''), (key_comment, ''Bom'')]] initial_table)"
    using sample_load_ok by blast
  have "obj_get [(key_timestamp, ''2025/08/04''), (key_expectations, ''Sim''), (key_comment, ''Bom'')] key_expectations = Some ''Sim''"
    by (simp add: obj_get_def key_timestamp_def key_expectations_def)
  with load_expectations_always_zero[OF v] v show ?thesis by blast
qed

text \<open>
  C10. After a successful load the table shows the first page of the parsed
  records: the cells of the first ten records, "showing min(n, 10) of n" where n
  counts the non-blank lines after the header, and one button per page of ten with
  button 1 active; the dashboard's total is the same n.
\<close>

theorem load_shows_first_page:
  assumes "pageLoad env (Response status statusText body) = (Inr v, st')"
  shows "\<exists>data. parseCSV body = Inr data \<and> tableData st' = data
           \<and> view_rows (renderTable st') = map (\<lambda>row. map (cell_text row) tableColumns) (take 10 data)
           \<and> view_shown (renderTable st') = min (int (length (nonblank_lines body) - 1)) 10
           \<and> view_total (renderTable st') = length (nonblank_lines body) - 1
           \<and> view_buttons (renderTable st')
               = map (\<lambda>i. (i, i = 1)) [1..<Suc (page_count (length (nonblank_lines body) - 1))]
           \<and> dash_total (dv_stats v) = length (nonblank_lines body) - 1"
proof -
  obtain s t b data where r: "Response status statusText body = Response s t b"
    and pb: "parseCSV b = Inr data" and ds: "dashboard_stats env data = Inr (dv_stats v)"
    and st: "st' = setupTable data initial_table"
    using assms unfolding pageLoad_def by (elim loadSurveyData_Inr) blast
  from r pb have p: "parseCSV body = Inr data" by simp
  have n: "length data = length (nonblank_lines body) - 1"
    using p by (rule parseCSV_length)
  have f: "filtered_rows st' = data"
    unfolding st by (rule filtered_rows_initial)
  have pg: "currentPage st' = 1" and td: "tableData st' = data"
    unfolding st by (simp_all add: setupTable_def)
  have "page_rows st' = take 10 data"
    using pg f by (simp add: page_rows_eq)
  moreover have "page_start st' = 0"
    using pg by (simp add: page_start_def)
  moreover have "renderPagination st' (length data) = map (\<lambda>i. (i, i = 1)) [1..<Suc (page_count (length data))]"
    unfolding renderPagination_def pagination_loop_eq using pg by simp
  ultimately show ?thesis
    using p td f n dashboard_stats_total[OF ds]
    by (simp add: renderTable_def Let_def rowsPerPage_def)
qed

theorem load_shows_first_page_witness:
  "\<exists>v st'. pageLoad \<lparr>locale_compare = (\<lambda>a b. 0), date_value = (\<lambda>d. NaN)\<rparr> (Response 200 ''OK'' (key_timestamp @ [COMMA] @ key_expectations @ [COMMA] @ key_comment @ [LF] @ ''2025/08/04,Sim,Bom'')) = (Inr v, st')
     \<and> view_rows (renderTable st') = [map (cell_text [(key_timestamp, ''2025/08/04''), (key_expectations, ''Sim''), (key_comment, ''Bom'')]) tableColumns]
     \<and> view_shown (renderTable st') = 1 \<and> view_total (renderTable st') = 1
     \<and> view_buttons (renderTable st') = [(1, True)] \<and> dash_total (dv_stats v) = 1"
proof -
  obtain v where v: "loadSurveyData \<lparr>locale_compare = (\<lambda>a b. 0), date_value = (\<lambda>d. NaN)\<rparr> (Response 200 ''OK'' (key_timestamp @ [COMMA] @ key_expectations @ [COMMA] @ key_comment @ [LF] @ ''2025/08/04,Sim,Bom'')) initial_table
                     = (Inr v, setupTable [[(key_timestamp, ''2025/08/04''), (key_expectations, ''Sim''), (key_comment, ''Bom'')]] initial_table)"
    using sample_load_ok by blast
  have n: "length (nonblank_lines (key_timestamp @ [COMMA] @ key_expectations @ [COMMA] @ key_comment @ [LF] @ ''2025/08/04,Sim,Bom'')) - 1 = 1"
    using parseCSV_length[OF sample_load] by simp
  have pc: "page_count 1 = 1" by (simp add: page_count_def rowsPerPage_def)
  from load_shows_first_page[OF v[folded pageLoad_def]] sample_load n pc show ?thesis
    using v by (auto simp: pageLoad_def)
qed

end
